theory Spec2Isabelle
  imports Main "HOL-Library.Word" "HOL-Library.Sublist" "HOL-Library.Monad_Syntax"
begin

section \<open>JavaScript strings\<close>

text \<open>
  A JavaScript string is a sequence of UTF-16 code units; \<^verbatim>\<open>length\<close> counts code
  units and \<^verbatim>\<open>===\<close> on strings compares the sequences. String literals of the
  source are ASCII and are written through \<open>js\<close>.
\<close>

type_synonym jsstring = "16 word list"

definition js :: "string \<Rightarrow> jsstring" where
  "js s = map of_char s"

text \<open>
  \<^verbatim>\<open>String.prototype.trim\<close> removes WhiteSpace and LineTerminator code points from
  both ends. All of them lie in the Basic Multilingual Plane, so each is one code unit.
\<close>

definition isWhiteSpace :: "16 word \<Rightarrow> bool" where
  "isWhiteSpace c \<longleftrightarrow>
     c = 0x0009 \<or> c = 0x000A \<or> c = 0x000B \<or> c = 0x000C \<or> c = 0x000D \<or> c = 0x0020 \<or>
     c = 0x00A0 \<or> c = 0x1680 \<or> (0x2000 \<le> c \<and> c \<le> 0x200A) \<or> c = 0x2028 \<or>
     c = 0x2029 \<or> c = 0x202F \<or> c = 0x205F \<or> c = 0x3000 \<or> c = 0xFEFF"

definition trim :: "jsstring \<Rightarrow> jsstring" where
  "trim s = rev (dropWhile isWhiteSpace (rev (dropWhile isWhiteSpace s)))"

section \<open>Dates\<close>

text \<open>
  A \<^verbatim>\<open>Date\<close> object holds a time value: milliseconds since the epoch, or NaN
  (an invalid date). The calendar functions are those of the ECMAScript specification
  (Day, DayFromYear, YearFromTime, MonthFromTime, DateFromTime, MakeDay, MakeTime,
  MakeDate), all in UTC.
\<close>

datatype Date = InvalidDate | TimeValue int

definition msPerDay :: int where
  "msPerDay = 86400000"

definition maxTime :: int where
  "maxTime = 8640000000000000"

definition Day :: "int \<Rightarrow> int" where
  "Day t = t div msPerDay"

definition TimeWithinDay :: "int \<Rightarrow> int" where
  "TimeWithinDay t = t mod msPerDay"

definition DayFromYear :: "int \<Rightarrow> int" where
  "DayFromYear y =
     365 * (y - 1970) + (y - 1969) div 4 - (y - 1901) div 100 + (y - 1601) div 400"

definition DaysInYear :: "int \<Rightarrow> int" where
  "DaysInYear y =
     (if y mod 4 \<noteq> 0 then 365 else if y mod 100 \<noteq> 0 then 366
      else if y mod 400 \<noteq> 0 then 365 else 366)"

text \<open>
  YearFromTime is specified as the largest year whose first day is not after the time
  value. It is computed from an estimate by the mean length of a year (146097 days in
  400 years), which is off by at most one; lemma \<open>YearFromDay_bounds\<close> below shows that
  the computed year is the specified one.
\<close>

definition YearFromDay :: "int \<Rightarrow> int" where
  "YearFromDay d =
     (let y = 1970 + (400 * d) div 146097
      in if DayFromYear (y + 1) \<le> d then y + 1
         else if d < DayFromYear y then y - 1 else y)"

definition YearFromTime :: "int \<Rightarrow> int" where
  "YearFromTime t = YearFromDay (Day t)"

definition InLeapYear :: "int \<Rightarrow> int" where
  "InLeapYear t = (if DaysInYear (YearFromTime t) = 366 then 1 else 0)"

definition DayWithinYear :: "int \<Rightarrow> int" where
  "DayWithinYear t = Day t - DayFromYear (YearFromTime t)"

definition MonthFromTime :: "int \<Rightarrow> int" where
  "MonthFromTime t =
     (let d = DayWithinYear t; l = InLeapYear t
      in if d < 31 then 0
         else if d < 59 + l then 1
         else if d < 90 + l then 2
         else if d < 120 + l then 3
         else if d < 151 + l then 4
         else if d < 181 + l then 5
         else if d < 212 + l then 6
         else if d < 243 + l then 7
         else if d < 273 + l then 8
         else if d < 304 + l then 9
         else if d < 334 + l then 10
         else 11)"

definition DateFromTime :: "int \<Rightarrow> int" where
  "DateFromTime t =
     (let d = DayWithinYear t; l = InLeapYear t; m = MonthFromTime t
      in if m = 0 then d + 1
         else if m = 1 then d - 30
         else if m = 2 then d - 58 - l
         else if m = 3 then d - 89 - l
         else if m = 4 then d - 119 - l
         else if m = 5 then d - 150 - l
         else if m = 6 then d - 180 - l
         else if m = 7 then d - 211 - l
         else if m = 8 then d - 242 - l
         else if m = 9 then d - 272 - l
         else if m = 10 then d - 303 - l
         else d - 333 - l)"

definition HourFromTime :: "int \<Rightarrow> int" where
  "HourFromTime t = (t div 3600000) mod 24"

definition MinFromTime :: "int \<Rightarrow> int" where
  "MinFromTime t = (t div 60000) mod 60"

definition SecFromTime :: "int \<Rightarrow> int" where
  "SecFromTime t = (t div 1000) mod 60"

definition msFromTime :: "int \<Rightarrow> int" where
  "msFromTime t = t mod 1000"

text \<open>The day number on which month \<open>m\<close> (0 to 11) of year \<open>y\<close> starts.\<close>

definition MonthStart :: "int \<Rightarrow> int \<Rightarrow> int" where
  "MonthStart y m =
     (let l = (if DaysInYear y = 366 then 1 else 0)
      in if m = 0 then 0
         else if m = 1 then 31
         else if m = 2 then 59 + l
         else if m = 3 then 90 + l
         else if m = 4 then 120 + l
         else if m = 5 then 151 + l
         else if m = 6 then 181 + l
         else if m = 7 then 212 + l
         else if m = 8 then 243 + l
         else if m = 9 then 273 + l
         else if m = 10 then 304 + l
         else 334 + l)"

definition DaysInMonth :: "int \<Rightarrow> int \<Rightarrow> int" where
  "DaysInMonth y m =
     (if m = 11 then 31 else MonthStart y (m + 1) - MonthStart y m)"

definition MakeDay :: "int \<Rightarrow> int \<Rightarrow> int \<Rightarrow> int" where
  "MakeDay y m dt = DayFromYear y + MonthStart y m + dt - 1"

definition MakeTime :: "int \<Rightarrow> int \<Rightarrow> int \<Rightarrow> int \<Rightarrow> int" where
  "MakeTime h m s ms = h * 3600000 + m * 60000 + s * 1000 + ms"

definition MakeDate :: "int \<Rightarrow> int \<Rightarrow> int" where
  "MakeDate day time = day * msPerDay + time"

subsection \<open>Decimal fields\<close>

definition digit :: "nat \<Rightarrow> 16 word" where
  "digit d = 0x30 + of_nat d"

text \<open>\<open>pad w n\<close>: the last \<open>w\<close> decimal digits of \<open>n\<close>, zero-padded.\<close>

fun pad :: "nat \<Rightarrow> nat \<Rightarrow> jsstring" where
  "pad 0 n = []"
| "pad (Suc w) n = pad w (n div 10) @ [digit (n mod 10)]"

text \<open>
  \<^verbatim>\<open>Date.prototype.toISOString\<close>: \<^verbatim>\<open>YYYY-MM-DDTHH:mm:ss.sssZ\<close>, with the expanded
  year \<^verbatim>\<open>+YYYYYY\<close> or \<^verbatim>\<open>-YYYYYY\<close> outside 0 to 9999.
\<close>

definition YearString :: "int \<Rightarrow> jsstring" where
  "YearString y =
     (if 0 \<le> y \<and> y \<le> 9999 then pad 4 (nat y)
      else if y < 0 then 0x2D # pad 6 (nat (- y))
      else 0x2B # pad 6 (nat y))"

definition toISOString :: "int \<Rightarrow> jsstring" where
  "toISOString t =
     YearString (YearFromTime t) @ [0x2D] @ pad 2 (nat (MonthFromTime t + 1)) @ [0x2D] @
     pad 2 (nat (DateFromTime t)) @ [0x54] @ pad 2 (nat (HourFromTime t)) @ [0x3A] @
     pad 2 (nat (MinFromTime t)) @ [0x3A] @ pad 2 (nat (SecFromTime t)) @ [0x2E] @
     pad 3 (nat (msFromTime t)) @ [0x5A]"

subsection \<open>Date.parse\<close>

text \<open>
  \<^verbatim>\<open>new Date(string)\<close> parses the string as \<^verbatim>\<open>Date.parse\<close> does. The format every
  engine must read is the one \<^verbatim>\<open>toISOString\<close> writes, and that format is what
  \<open>Date_parse\<close> reads: a year of four digits, or a sign and six digits (not
  \<^verbatim>\<open>-000000\<close>), month, day, hours, minutes, seconds, milliseconds and the time zone
  \<^verbatim>\<open>Z\<close>, each field within its range and the time value within the range of a Date.
  Other ISO forms depend on the local time zone, and what an engine makes of any other
  string is left to it by the language specification: for those \<open>Date_parse\<close> gives
  \<open>None\<close>, which stands for a result this model does not determine.
\<close>

text \<open>Reading decimal digits: a digit, its value, and the number a digit string denotes.\<close>

definition isDigit :: "16 word \<Rightarrow> bool" where
  "isDigit c \<longleftrightarrow> 0x30 \<le> c \<and> c \<le> 0x39"

definition digitValue :: "16 word \<Rightarrow> nat" where
  "digitValue c = unat c - 48"

definition natOfDigits :: "jsstring \<Rightarrow> nat" where
  "natOfDigits s = foldl (\<lambda>a c. 10 * a + digitValue c) 0 s"

definition readField :: "nat \<Rightarrow> jsstring \<Rightarrow> (int \<times> jsstring) option" where
  "readField w s =
     (if w \<le> length s \<and> list_all isDigit (take w s)
      then Some (int (natOfDigits (take w s)), drop w s) else None)"

definition expect :: "16 word \<Rightarrow> jsstring \<Rightarrow> jsstring option" where
  "expect c s = (case s of [] \<Rightarrow> None | x # xs \<Rightarrow> if x = c then Some xs else None)"

definition readYear :: "jsstring \<Rightarrow> (int \<times> jsstring) option" where
  "readYear s =
     (case s of
        [] \<Rightarrow> None
      | c # cs \<Rightarrow>
          if c = 0x2B then readField 6 cs
          else if c = 0x2D then
            (case readField 6 cs of
               None \<Rightarrow> None
             | Some (y, rest) \<Rightarrow> if y = 0 then None else Some (- y, rest))
          else readField 4 s)"

definition Date_parse :: "jsstring \<Rightarrow> Date option" where
  "Date_parse s = do {
     (y, s1) \<leftarrow> readYear s;
     s2 \<leftarrow> expect 0x2D s1;
     (mo, s3) \<leftarrow> readField 2 s2;
     s4 \<leftarrow> expect 0x2D s3;
     (d, s5) \<leftarrow> readField 2 s4;
     s6 \<leftarrow> expect 0x54 s5;
     (h, s7) \<leftarrow> readField 2 s6;
     s8 \<leftarrow> expect 0x3A s7;
     (mi, s9) \<leftarrow> readField 2 s8;
     s10 \<leftarrow> expect 0x3A s9;
     (sec, s11) \<leftarrow> readField 2 s10;
     s12 \<leftarrow> expect 0x2E s11;
     (ms, s13) \<leftarrow> readField 3 s12;
     s14 \<leftarrow> expect 0x5A s13;
     (let tv = MakeDate (MakeDay y (mo - 1) d) (MakeTime h mi sec ms)
      in if s14 = [] \<and> 1 \<le> mo \<and> mo \<le> 12 \<and> 1 \<le> d \<and> d \<le> DaysInMonth y (mo - 1) \<and>
            h \<le> 23 \<and> mi \<le> 59 \<and> sec \<le> 59 \<and> - maxTime \<le> tv \<and> tv \<le> maxTime
         then Some (TimeValue tv) else None)
   }"

section \<open>Tasks and their serialisation\<close>

text \<open>
  The class \<^verbatim>\<open>Task\<close>. The fields \<^verbatim>\<open>id\<close> and \<^verbatim>\<open>text\<close> are written \<open>id'\<close> and
  \<open>text'\<close>. An id is the number \<^verbatim>\<open>Date.now()\<close> returned, an integer, or the one
  read back from the stored snapshot.
\<close>

record Task =
  id' :: int
  text' :: jsstring
  completed :: bool
  createdAt :: Date

text \<open>
  The constructor \<^verbatim>\<open>new Task(id, text)\<close> as \<^verbatim>\<open>addTask\<close> calls it: the defaults
  give \<^verbatim>\<open>completed = false\<close> and \<^verbatim>\<open>createdAt = new Date()\<close>, the clock read at
  construction (\<open>now\<close>).
\<close>

definition new_Task :: "int \<Rightarrow> jsstring \<Rightarrow> int \<Rightarrow> Task" where
  "new_Task i txt now = \<lparr>id' = i, text' = txt, completed = False, createdAt = TimeValue now\<rparr>"

subsection \<open>JSON.stringify on the task array\<close>

text \<open>
  \<^verbatim>\<open>Number::toString\<close> of an integer (below \<open>10^21\<close> in absolute value): its decimal
  digits, with a minus sign when negative.
\<close>

fun digits :: "nat \<Rightarrow> jsstring" where
  "digits n = (if n < 10 then [digit n] else digits (n div 10) @ [digit (n mod 10)])"

declare digits.simps [simp del]

definition NumberToString :: "int \<Rightarrow> jsstring" where
  "NumberToString i = (if i < 0 then 0x2D # digits (nat (- i)) else digits (nat i))"

text \<open>
  QuoteJSONString: the quotation mark, the backslash and the control characters are
  escaped; a surrogate that is not part of a pair is written as a \<^verbatim>\<open>\u\<close> escape
  (well-formed \<^verbatim>\<open>JSON.stringify\<close>); every other code unit stands for itself.
\<close>

definition hexDigit :: "nat \<Rightarrow> 16 word" where
  "hexDigit n = (if n < 10 then 0x30 + of_nat n else 0x57 + of_nat n)"

definition UnicodeEscape :: "16 word \<Rightarrow> jsstring" where
  "UnicodeEscape c =
     (let n = unat c
      in [0x5C, 0x75, hexDigit (n div 4096 mod 16), hexDigit (n div 256 mod 16),
          hexDigit (n div 16 mod 16), hexDigit (n mod 16)])"

definition isLeadingSurrogate :: "16 word \<Rightarrow> bool" where
  "isLeadingSurrogate c \<longleftrightarrow> 0xD800 \<le> c \<and> c \<le> 0xDBFF"

definition isTrailingSurrogate :: "16 word \<Rightarrow> bool" where
  "isTrailingSurrogate c \<longleftrightarrow> 0xDC00 \<le> c \<and> c \<le> 0xDFFF"

definition escapeUnit :: "16 word \<Rightarrow> jsstring" where
  "escapeUnit c =
     (if c = 0x08 then [0x5C, 0x62]
      else if c = 0x09 then [0x5C, 0x74]
      else if c = 0x0A then [0x5C, 0x6E]
      else if c = 0x0C then [0x5C, 0x66]
      else if c = 0x0D then [0x5C, 0x72]
      else if c = 0x22 then [0x5C, 0x22]
      else if c = 0x5C then [0x5C, 0x5C]
      else if c < 0x20 \<or> isLeadingSurrogate c \<or> isTrailingSurrogate c then UnicodeEscape c
      else [c])"

fun quoteBody :: "jsstring \<Rightarrow> jsstring" where
  "quoteBody [] = []"
| "quoteBody [c] = escapeUnit c"
| "quoteBody (c # d # cs) =
     (if isLeadingSurrogate c \<and> isTrailingSurrogate d then c # d # quoteBody cs
      else escapeUnit c @ quoteBody (d # cs))"

definition QuoteJSONString :: "jsstring \<Rightarrow> jsstring" where
  "QuoteJSONString s = [0x22] @ quoteBody s @ [0x22]"

text \<open>
  \<^verbatim>\<open>Date.prototype.toJSON\<close>, which \<^verbatim>\<open>JSON.stringify\<close> calls on a Date: null for an
  invalid date, the ISO string otherwise.
\<close>

definition Date_toJSON :: "Date \<Rightarrow> jsstring" where
  "Date_toJSON d =
     (case d of InvalidDate \<Rightarrow> js ''null'' | TimeValue t \<Rightarrow> QuoteJSONString (toISOString t))"

text \<open>
  The object \<^verbatim>\<open>{id: t.id, text: t.text, completed: t.completed, createdAt: t.createdAt}\<close>
  that \<^verbatim>\<open>saveTasks\<close> builds, serialised: its keys in insertion order, no white space.
\<close>

definition SerializeTask :: "Task \<Rightarrow> jsstring" where
  "SerializeTask t =
     [0x7B] @ QuoteJSONString (js ''id'') @ [0x3A] @ NumberToString (id' t) @ [0x2C] @
     QuoteJSONString (js ''text'') @ [0x3A] @ QuoteJSONString (text' t) @ [0x2C] @
     QuoteJSONString (js ''completed'') @ [0x3A] @
       (if completed t then js ''true'' else js ''false'') @ [0x2C] @
     QuoteJSONString (js ''createdAt'') @ [0x3A] @ Date_toJSON (createdAt t) @ [0x7D]"

fun SerializeElements :: "Task list \<Rightarrow> jsstring" where
  "SerializeElements [] = []"
| "SerializeElements [t] = SerializeTask t"
| "SerializeElements (t # ts) = SerializeTask t @ [0x2C] @ SerializeElements ts"

definition JSON_stringify :: "Task list \<Rightarrow> jsstring" where
  "JSON_stringify ts = [0x5B] @ SerializeElements ts @ [0x5D]"

subsection \<open>JSON.parse\<close>

text \<open>
  \<^verbatim>\<open>JSON.parse\<close> in two passes over the JSON grammar: \<open>lex\<close> splits the text into
  tokens (strings with their escapes decoded, numbers, the three literals, punctuation,
  white space skipped), and a pushdown automaton builds the value from the tokens. A
  text that is not JSON is a \<open>SyntaxError\<close>. A number is kept as the integer mantissa and
  the decimal exponent of its literal, \<open>JNumber m e\<close> for \<open>m * 10^e\<close>; the members of an
  object are kept in the order of the text.
\<close>

datatype js_error = SyntaxError | TypeError

datatype json =
    JNull
  | JBool bool
  | JNumber int int
  | JString jsstring
  | JArray "json list"
  | JObject "(jsstring \<times> json) list"

datatype token =
    TLBracket | TRBracket | TLBrace | TRBrace | TComma | TColon
  | TString jsstring | TNumber int int | TTrue | TFalse | TNull

text \<open>
  \<open>lexString\<close> reads a string after its opening quotation mark, up to the closing one:
  the decoded code units and the rest of the text. Control characters below U+0020 must
  be escaped; the escapes are those of JSON.
\<close>

definition hexValue :: "16 word \<Rightarrow> nat option" where
  "hexValue c =
     (if 0x30 \<le> c \<and> c \<le> 0x39 then Some (unat c - 48)
      else if 0x41 \<le> c \<and> c \<le> 0x46 then Some (unat c - 55)
      else if 0x61 \<le> c \<and> c \<le> 0x66 then Some (unat c - 87)
      else None)"

definition unescape :: "16 word \<Rightarrow> 16 word option" where
  "unescape e =
     (if e = 0x22 then Some 0x22
      else if e = 0x5C then Some 0x5C
      else if e = 0x2F then Some 0x2F
      else if e = 0x62 then Some 0x08
      else if e = 0x66 then Some 0x0C
      else if e = 0x6E then Some 0x0A
      else if e = 0x72 then Some 0x0D
      else if e = 0x74 then Some 0x09
      else None)"

fun lexString :: "jsstring \<Rightarrow> (jsstring \<times> jsstring) option" where
  "lexString [] = None"
| "lexString (c # cs) =
     (if c = 0x22 then Some ([], cs)
      else if c = 0x5C then
        (case cs of
           [] \<Rightarrow> None
         | e # es \<Rightarrow>
             if e = 0x75 then
               (case es of
                  h1 # h2 # h3 # h4 # rest \<Rightarrow>
                    (case (hexValue h1, hexValue h2, hexValue h3, hexValue h4) of
                       (Some a, Some b, Some c', Some d) \<Rightarrow>
                         map_option (apfst ((#) (of_nat (a * 4096 + b * 256 + c' * 16 + d))))
                           (lexString rest)
                     | _ \<Rightarrow> None)
                | _ \<Rightarrow> None)
             else
               (case unescape e of
                  None \<Rightarrow> None
                | Some u \<Rightarrow> map_option (apfst ((#) u)) (lexString es)))
      else if c < 0x20 then None
      else map_option (apfst ((#) c)) (lexString cs))"

text \<open>
  \<open>lexNumber\<close> reads a number: an optional minus sign, the integer part (with no
  leading zero unless it is the single digit 0), an optional fraction and an optional
  exponent.
\<close>

definition lexSign :: "jsstring \<Rightarrow> bool \<times> jsstring" where
  "lexSign s = (case s of [] \<Rightarrow> (False, s) | c # cs \<Rightarrow> if c = 0x2D then (True, cs) else (False, s))"

definition lexFraction :: "jsstring \<Rightarrow> (jsstring \<times> jsstring) option" where
  "lexFraction s =
     (case s of
        [] \<Rightarrow> Some ([], s)
      | c # cs \<Rightarrow>
          if c = 0x2E
          then (if takeWhile isDigit cs = [] then None
                else Some (takeWhile isDigit cs, dropWhile isDigit cs))
          else Some ([], s))"

definition lexExponent :: "jsstring \<Rightarrow> (int \<times> jsstring) option" where
  "lexExponent s =
     (case s of
        [] \<Rightarrow> Some (0, s)
      | c # cs \<Rightarrow>
          if c = 0x65 \<or> c = 0x45
          then (let (neg, s1) =
                      (case cs of
                         [] \<Rightarrow> (False, cs)
                       | d # ds \<Rightarrow>
                           if d = 0x2D then (True, ds)
                           else if d = 0x2B then (False, ds) else (False, cs))
                in if takeWhile isDigit s1 = [] then None
                   else Some ((if neg then - int (natOfDigits (takeWhile isDigit s1))
                               else int (natOfDigits (takeWhile isDigit s1))),
                              dropWhile isDigit s1))
          else Some (0, s))"

definition lexNumber :: "jsstring \<Rightarrow> ((int \<times> int) \<times> jsstring) option" where
  "lexNumber s =
     (let (neg, s1) = lexSign s; ip = takeWhile isDigit s1
      in if ip = [] \<or> (hd ip = 0x30 \<and> length ip > 1) then None
         else (case lexFraction (dropWhile isDigit s1) of
                 None \<Rightarrow> None
               | Some (fp, s2) \<Rightarrow>
                   (case lexExponent s2 of
                      None \<Rightarrow> None
                    | Some (ex, s3) \<Rightarrow>
                        Some ((if neg then - int (natOfDigits (ip @ fp))
                               else int (natOfDigits (ip @ fp)),
                               ex - int (length fp)), s3))))"

text \<open>Both leave a text that is no longer than the one they were given, so \<open>lex\<close> terminates.\<close>

lemma lexString_length: "lexString cs = Some (s, rest) \<Longrightarrow> length rest \<le> length cs"
proof (induction cs arbitrary: s rest rule: lexString.induct)
  case 1
  then show ?case by simp
next
  case (2 c cs)
  then show ?case
    by (fastforce split: if_splits list.splits option.splits)
qed

lemma lexFraction_length: "lexFraction s = Some (fp, rest) \<Longrightarrow> length rest \<le> length s"
  by (auto simp add: lexFraction_def length_dropWhile_le le_SucI split: list.splits if_splits)

lemma lexExponent_length: "lexExponent s = Some (ex, rest) \<Longrightarrow> length rest \<le> length s"
  by (auto simp add: lexExponent_def Let_def length_dropWhile_le le_SucI
      intro: order_trans [OF length_dropWhile_le] split: list.splits if_splits)

lemma lexSign_length: "lexSign s = (neg, s1) \<Longrightarrow> length s1 \<le> length s"
  by (auto simp add: lexSign_def split: list.splits if_splits)

lemma dropWhile_shorter: "takeWhile P xs \<noteq> [] \<Longrightarrow> length (dropWhile P xs) < length xs"
  by (cases xs) (auto simp add: less_Suc_eq_le length_dropWhile_le split: if_splits)

lemma lexNumber_length:
  assumes "lexNumber s = Some (x, rest)"
  shows "length rest < length s"
proof -
  obtain neg s1 where sg: "lexSign s = (neg, s1)"
    by (cases "lexSign s")
  from assms sg have ne: "takeWhile isDigit s1 \<noteq> []"
    by (auto simp add: lexNumber_def Let_def split: if_splits)
  from assms sg ne obtain fp s2 ex where
    fr: "lexFraction (dropWhile isDigit s1) = Some (fp, s2)" and
    ex: "lexExponent s2 = Some (ex, rest)"
    by (auto simp add: lexNumber_def Let_def split: if_splits option.splits)
  show ?thesis
    using lexSign_length [OF sg] dropWhile_shorter [OF ne] lexFraction_length [OF fr]
      lexExponent_length [OF ex]
    by linarith
qed

function lex :: "jsstring \<Rightarrow> token list option" where
  "lex [] = Some []"
| "lex (c # cs) =
     (if c = 0x20 \<or> c = 0x09 \<or> c = 0x0A \<or> c = 0x0D then lex cs
      else if c = 0x5B then map_option ((#) TLBracket) (lex cs)
      else if c = 0x5D then map_option ((#) TRBracket) (lex cs)
      else if c = 0x7B then map_option ((#) TLBrace) (lex cs)
      else if c = 0x7D then map_option ((#) TRBrace) (lex cs)
      else if c = 0x2C then map_option ((#) TComma) (lex cs)
      else if c = 0x3A then map_option ((#) TColon) (lex cs)
      else if c = 0x22 then
        (case lexString cs of
           None \<Rightarrow> None
         | Some (s, rest) \<Rightarrow> map_option ((#) (TString s)) (lex rest))
      else if c = 0x2D \<or> isDigit c then
        (case lexNumber (c # cs) of
           None \<Rightarrow> None
         | Some ((m, e), rest) \<Rightarrow> map_option ((#) (TNumber m e)) (lex rest))
      else if take 4 (c # cs) = js ''true'' then map_option ((#) TTrue) (lex (drop 3 cs))
      else if take 5 (c # cs) = js ''false'' then map_option ((#) TFalse) (lex (drop 4 cs))
      else if take 4 (c # cs) = js ''null'' then map_option ((#) TNull) (lex (drop 3 cs))
      else None)"
  by pat_completeness auto
termination
proof (relation "measure length")
  fix c cs x2 x y
  assume "lexString cs = Some x2" and "(x, y) = x2"
  then show "(y, c # cs) \<in> measure length"
    using lexString_length [of cs x y] by simp
next
  fix c cs x2 x y xa ya
  assume "lexNumber (c # cs) = Some x2" and "(x, y) = x2"
  then show "(y, c # cs) \<in> measure length"
    using lexNumber_length [of "c # cs" x y] by simp
qed simp_all

text \<open>
  The parser keeps a stack of the arrays and objects that are open (\<open>FArray\<close> with the
  elements read so far, \<open>FObject\<close> with the members read so far, \<open>FMember\<close> when a key
  and its colon have been read) and a mode that says what may come next. \<open>completeValue\<close>
  hands a finished value to the innermost open array or member, or ends the parse when
  nothing is open. The text is JSON exactly when the tokens lead from \<open>MValue\<close> with an
  empty stack to \<open>MDone\<close>.
\<close>

datatype frame =
    FArray "json list"
  | FObject "(jsstring \<times> json) list"
  | FMember "(jsstring \<times> json) list" jsstring

datatype mode =
    MValue | MValueOrClose | MKey | MKeyOrClose | MColon | MAfter | MDone json

fun completeValue :: "json \<Rightarrow> frame list \<Rightarrow> (mode \<times> frame list) option" where
  "completeValue v [] = Some (MDone v, [])"
| "completeValue v (FArray acc # st) = Some (MAfter, FArray (v # acc) # st)"
| "completeValue v (FMember acc k # st) = Some (MAfter, FObject ((k, v) # acc) # st)"
| "completeValue v (FObject acc # st) = None"

fun startValue :: "token \<Rightarrow> frame list \<Rightarrow> (mode \<times> frame list) option" where
  "startValue TLBracket st = Some (MValueOrClose, FArray [] # st)"
| "startValue TLBrace st = Some (MKeyOrClose, FObject [] # st)"
| "startValue (TString s) st = completeValue (JString s) st"
| "startValue (TNumber m e) st = completeValue (JNumber m e) st"
| "startValue TTrue st = completeValue (JBool True) st"
| "startValue TFalse st = completeValue (JBool False) st"
| "startValue TNull st = completeValue JNull st"
| "startValue _ st = None"

fun startKey :: "token \<Rightarrow> frame list \<Rightarrow> (mode \<times> frame list) option" where
  "startKey (TString k) (FObject acc # st) = Some (MColon, FMember acc k # st)"
| "startKey _ _ = None"

fun step :: "mode \<times> frame list \<Rightarrow> token \<Rightarrow> (mode \<times> frame list) option" where
  "step (MValue, st) tok = startValue tok st"
| "step (MValueOrClose, FArray acc # st) TRBracket = completeValue (JArray (rev acc)) st"
| "step (MValueOrClose, st) tok = startValue tok st"
| "step (MKeyOrClose, FObject acc # st) TRBrace = completeValue (JObject (rev acc)) st"
| "step (MKeyOrClose, st) tok = startKey tok st"
| "step (MKey, st) tok = startKey tok st"
| "step (MColon, st) TColon = Some (MValue, st)"
| "step (MColon, st) _ = None"
| "step (MAfter, FArray acc # st) TComma = Some (MValue, FArray acc # st)"
| "step (MAfter, FArray acc # st) TRBracket = completeValue (JArray (rev acc)) st"
| "step (MAfter, FObject acc # st) TComma = Some (MKey, FObject acc # st)"
| "step (MAfter, FObject acc # st) TRBrace = completeValue (JObject (rev acc)) st"
| "step (MAfter, st) _ = None"
| "step (MDone v, st) _ = None"

fun run :: "mode \<times> frame list \<Rightarrow> token list \<Rightarrow> (mode \<times> frame list) option" where
  "run s [] = Some s"
| "run s (tok # toks) = (case step s tok of None \<Rightarrow> None | Some s' \<Rightarrow> run s' toks)"

definition parseTokens :: "token list \<Rightarrow> json option" where
  "parseTokens toks =
     (case run (MValue, []) toks of Some (MDone v, []) \<Rightarrow> Some v | _ \<Rightarrow> None)"

definition JSON_parse :: "jsstring \<Rightarrow> js_error + json" where
  "JSON_parse s =
     (case lex s of
        None \<Rightarrow> Inl SyntaxError
      | Some toks \<Rightarrow>
          (case parseTokens toks of None \<Rightarrow> Inl SyntaxError | Some v \<Rightarrow> Inr v))"

section \<open>The application\<close>

text \<open>
  The state of \<^verbatim>\<open>TodoApp\<close> (\<open>tasks\<close>, \<open>currentFilter\<close>, \<open>editingId\<close>) together with
  what its methods read and write outside the object: the value of the input element
  \<^verbatim>\<open>taskInput\<close>, the value of \<^verbatim>\<open>editInput\<close> and whether the edit modal is
  shown, the entry \<^verbatim>\<open>tasks\<close> of \<^verbatim>\<open>localStorage\<close> (\<open>None\<close> when the key is absent),
  the messages passed to \<^verbatim>\<open>alert\<close> and the exceptions passed to
  \<^verbatim>\<open>console.error\<close>, both oldest first. \<^verbatim>\<open>render\<close> and \<^verbatim>\<open>updateStats\<close> only
  write the task list and the counters of the page from \<open>tasks\<close> and \<open>currentFilter\<close>;
  the page is not part of the state, so the calls to \<^verbatim>\<open>render\<close> leave it as it is.
  \<^verbatim>\<open>localStorage.setItem\<close> is taken to succeed.
\<close>

record TodoApp =
  tasks :: "Task list"
  currentFilter :: jsstring
  editingId :: "int option"
  taskInput :: jsstring
  editInput :: jsstring
  modalShown :: bool
  storage :: "jsstring option"
  alerts :: "string list"
  console :: "js_error list"

definition alert :: "string \<Rightarrow> TodoApp \<Rightarrow> TodoApp" where
  "alert msg app = app\<lparr>alerts := alerts app @ [msg]\<rparr>"

definition saveTasks :: "TodoApp \<Rightarrow> TodoApp" where
  "saveTasks app = app\<lparr>storage := Some (JSON_stringify (tasks app))\<rparr>"

text \<open>
  \<^verbatim>\<open>addTask\<close> reads the clock twice: \<^verbatim>\<open>Date.now()\<close> for the id (\<open>now\<close>) and
  \<^verbatim>\<open>new Date()\<close> in the constructor (\<open>now'\<close>). The first component of the result is the
  value the call returns: every path of the method ends in \<^verbatim>\<open>return;\<close> or runs off its
  end, so the caller gets \<^verbatim>\<open>undefined\<close> (\<open>None\<close>), never a Task.
\<close>

definition addTask :: "int \<Rightarrow> int \<Rightarrow> TodoApp \<Rightarrow> Task option \<times> TodoApp" where
  "addTask now now' app =
     (let txt = trim (taskInput app)
      in if txt = [] then (None, alert ''Please enter a task!'' app)
         else if length txt > 100
           then (None, alert ''Task is too long! Maximum 100 characters.'' app)
         else (None,
           saveTasks (app\<lparr>tasks := tasks app @ [new_Task now txt now'], taskInput := []\<rparr>)))"

text \<open>
  \<^verbatim>\<open>deleteTask\<close>, \<^verbatim>\<open>clearCompleted\<close> and \<^verbatim>\<open>clearAll\<close> ask \<^verbatim>\<open>confirm\<close> first; the
  answer is the argument \<open>ok\<close>.
\<close>

definition deleteTask :: "bool \<Rightarrow> int \<Rightarrow> TodoApp \<Rightarrow> TodoApp" where
  "deleteTask ok i app =
     (if ok then saveTasks (app\<lparr>tasks := filter (\<lambda>task. id' task \<noteq> i) (tasks app)\<rparr>)
      else app)"

text \<open>
  \<^verbatim>\<open>this.tasks.find(t => t.id === id)\<close> returns the first task with the id, or
  \<^verbatim>\<open>undefined\<close>; the assignment to a field of the task found changes that element of
  the array, which \<open>assignFound\<close> does. No two elements of the array are the same
  object: every task is made by \<^verbatim>\<open>new Task\<close> in \<^verbatim>\<open>addTask\<close> or \<^verbatim>\<open>loadTasks\<close>.
\<close>

fun assignFound :: "('a \<Rightarrow> bool) \<Rightarrow> ('a \<Rightarrow> 'a) \<Rightarrow> 'a list \<Rightarrow> 'a list" where
  "assignFound P f [] = []"
| "assignFound P f (x # xs) = (if P x then f x # xs else x # assignFound P f xs)"

definition toggleTask :: "int \<Rightarrow> TodoApp \<Rightarrow> TodoApp" where
  "toggleTask i app =
     (case find (\<lambda>t. id' t = i) (tasks app) of
        None \<Rightarrow> app
      | Some task \<Rightarrow>
          saveTasks (app\<lparr>tasks :=
            assignFound (\<lambda>t. id' t = i) (\<lambda>t. t\<lparr>completed := \<not> completed t\<rparr>) (tasks app)\<rparr>))"

definition showEditModal :: "Task \<Rightarrow> TodoApp \<Rightarrow> TodoApp" where
  "showEditModal task app =
     app\<lparr>editInput := text' task, editingId := Some (id' task), modalShown := True\<rparr>"

definition editTask :: "int \<Rightarrow> TodoApp \<Rightarrow> TodoApp" where
  "editTask i app =
     (case find (\<lambda>t. id' t = i) (tasks app) of
        None \<Rightarrow> app
      | Some task \<Rightarrow> showEditModal task app)"

definition closeEditModal :: "TodoApp \<Rightarrow> TodoApp" where
  "closeEditModal app = app\<lparr>modalShown := False, editingId := None\<rparr>"

definition saveEdit :: "int \<Rightarrow> jsstring \<Rightarrow> TodoApp \<Rightarrow> TodoApp" where
  "saveEdit i newText app =
     (let txt = trim newText
      in if txt = [] then alert ''Task cannot be empty!'' app
         else (case find (\<lambda>t. id' t = i) (tasks app) of
                 None \<Rightarrow> app
               | Some task \<Rightarrow>
                   closeEditModal (saveTasks (app\<lparr>tasks :=
                     assignFound (\<lambda>t. id' t = i) (\<lambda>t. t\<lparr>text' := txt\<rparr>) (tasks app)\<rparr>))))"

definition clearCompleted :: "bool \<Rightarrow> TodoApp \<Rightarrow> TodoApp" where
  "clearCompleted ok app =
     (if ok then saveTasks (app\<lparr>tasks := filter (\<lambda>task. \<not> completed task) (tasks app)\<rparr>)
      else app)"

definition clearAll :: "bool \<Rightarrow> TodoApp \<Rightarrow> TodoApp" where
  "clearAll ok app = (if ok then saveTasks (app\<lparr>tasks := []\<rparr>) else app)"

definition setFilter :: "jsstring \<Rightarrow> TodoApp \<Rightarrow> TodoApp" where
  "setFilter f app = app\<lparr>currentFilter := f\<rparr>"

definition getFilteredTasks :: "TodoApp \<Rightarrow> Task list" where
  "getFilteredTasks app =
     (if currentFilter app = js ''active'' then filter (\<lambda>task. \<not> completed task) (tasks app)
      else if currentFilter app = js ''completed'' then filter (\<lambda>task. completed task) (tasks app)
      else tasks app)"

subsection \<open>Loading\<close>

text \<open>
  \<^verbatim>\<open>loadTasks\<close> maps each element \<^verbatim>\<open>t\<close> of the parsed array to
  \<^verbatim>\<open>new Task(t.id, t.text, t.completed, new Date(t.createdAt))\<close>. The fields of a
  \<open>Task\<close> are typed here, so the conversion is defined for the elements that fit the
  types: an object whose \<^verbatim>\<open>id\<close> is an integer that a JavaScript number holds exactly,
  whose \<^verbatim>\<open>text\<close> is a string, whose \<^verbatim>\<open>completed\<close> is a boolean or missing (the
  constructor's default \<^verbatim>\<open>false\<close>), and whose \<^verbatim>\<open>createdAt\<close> is a string that
  \<open>Date_parse\<close> reads, an integer, \<^verbatim>\<open>null\<close> (the epoch) or missing (an invalid date).
  For any other element \<open>TaskOfJSON\<close> gives \<open>None\<close>: what JavaScript builds from it is
  no \<open>Task\<close> of this model.

  A property read of an object parsed from JSON gives the value of the last member with
  that key, or \<^verbatim>\<open>undefined\<close> (\<open>None\<close>).
\<close>

definition integerValue :: "int \<Rightarrow> int \<Rightarrow> int option" where
  "integerValue m e =
     (if 0 \<le> e then Some (m * 10 ^ nat e)
      else if m mod 10 ^ nat (- e) = 0 then Some (m div 10 ^ nat (- e))
      else None)"

definition maxSafeInteger :: int where
  "maxSafeInteger = 9007199254740991"

definition getProperty :: "jsstring \<Rightarrow> (jsstring \<times> json) list \<Rightarrow> json option" where
  "getProperty k members = map_of (rev members) k"

definition idOfJSON :: "json option \<Rightarrow> int option" where
  "idOfJSON v =
     (case v of
        Some (JNumber m e) \<Rightarrow>
          (case integerValue m e of
             Some n \<Rightarrow> if \<bar>n\<bar> \<le> maxSafeInteger then Some n else None
           | None \<Rightarrow> None)
      | _ \<Rightarrow> None)"

definition textOfJSON :: "json option \<Rightarrow> jsstring option" where
  "textOfJSON v = (case v of Some (JString s) \<Rightarrow> Some s | _ \<Rightarrow> None)"

definition completedOfJSON :: "json option \<Rightarrow> bool option" where
  "completedOfJSON v = (case v of None \<Rightarrow> Some False | Some (JBool b) \<Rightarrow> Some b | _ \<Rightarrow> None)"

definition new_Date :: "json option \<Rightarrow> Date option" where
  "new_Date v =
     (case v of
        None \<Rightarrow> Some InvalidDate
      | Some JNull \<Rightarrow> Some (TimeValue 0)
      | Some (JString s) \<Rightarrow> Date_parse s
      | Some (JNumber m e) \<Rightarrow>
          (case integerValue m e of
             Some n \<Rightarrow> Some (if \<bar>n\<bar> \<le> maxTime then TimeValue n else InvalidDate)
           | None \<Rightarrow> None)
      | _ \<Rightarrow> None)"

definition TaskOfJSON :: "json \<Rightarrow> Task option" where
  "TaskOfJSON t =
     (case t of
        JObject members \<Rightarrow>
          (case (idOfJSON (getProperty (js ''id'') members),
                 textOfJSON (getProperty (js ''text'') members),
                 completedOfJSON (getProperty (js ''completed'') members),
                 new_Date (getProperty (js ''createdAt'') members)) of
             (Some i, Some s, Some c, Some d) \<Rightarrow>
               Some \<lparr>id' = i, text' = s, completed = c, createdAt = d\<rparr>
           | _ \<Rightarrow> None)
      | _ \<Rightarrow> None)"

text \<open>
  \<^verbatim>\<open>loadTasks\<close>. Nothing is done when the key is absent or holds the empty string
  (\<^verbatim>\<open>if (stored)\<close>). Inside the \<^verbatim>\<open>try\<close>, \<^verbatim>\<open>JSON.parse\<close> throws a SyntaxError on
  a text that is not JSON; \<^verbatim>\<open>data.map\<close> throws a TypeError when the value parsed is
  not an array, and so does the property read \<^verbatim>\<open>t.id\<close> when an element is
  \<^verbatim>\<open>null\<close>. The \<^verbatim>\<open>catch\<close> logs the exception and empties the collection
  (\<open>caught\<close>). No exception leaves the method: the result \<open>Modelled app'\<close> is a call
  that returns normally in the state \<open>app'\<close>. \<open>OutsideModel\<close> is a call on an array with
  an element that is no typed task and no \<^verbatim>\<open>null\<close>: its outcome is not determined here.
\<close>

datatype 'a modelled = Modelled 'a | OutsideModel

definition caught :: "js_error \<Rightarrow> TodoApp \<Rightarrow> TodoApp" where
  "caught e app = app\<lparr>console := console app @ [e], tasks := []\<rparr>"

definition loadTasks :: "TodoApp \<Rightarrow> TodoApp modelled" where
  "loadTasks app =
     (case storage app of
        None \<Rightarrow> Modelled app
      | Some stored \<Rightarrow>
          if stored = [] then Modelled app
          else (case JSON_parse stored of
                  Inl e \<Rightarrow> Modelled (caught e app)
                | Inr (JArray elems) \<Rightarrow>
                    if JNull \<in> set elems then Modelled (caught TypeError app)
                    else (case those (map TaskOfJSON elems) of
                            Some ts \<Rightarrow> Modelled (app\<lparr>tasks := ts\<rparr>)
                          | None \<Rightarrow> OutsideModel)
                | Inr _ \<Rightarrow> Modelled (caught TypeError app)))"

text \<open>
  The fields the constructor sets and the page as it is loaded, before \<^verbatim>\<open>init\<close> runs;
  \<open>stored\<close> is what \<^verbatim>\<open>localStorage\<close> holds under the key \<^verbatim>\<open>tasks\<close>.
\<close>

definition blankApp :: "jsstring option \<Rightarrow> TodoApp" where
  "blankApp stored =
     \<lparr>tasks = [], currentFilter = js ''all'', editingId = None, taskInput = [],
      editInput = [], modalShown = False, storage = stored, alerts = [], console = []\<rparr>"

text \<open>
  The constructor calls \<^verbatim>\<open>init\<close>, which loads the tasks (and then binds the event
  listeners and renders).
\<close>

definition init :: "TodoApp \<Rightarrow> TodoApp modelled" where
  "init app = loadTasks app"

definition new_TodoApp :: "jsstring option \<Rightarrow> TodoApp modelled" where
  "new_TodoApp stored = init (blankApp stored)"

subsection \<open>Sequences of user events\<close>

text \<open>
  The operations of the store as the page triggers them: an add types \<open>raw\<close> into the
  input element and calls \<^verbatim>\<open>addTask\<close> with the two clock readings; the others call
  the method with its arguments and the answer given to \<^verbatim>\<open>confirm\<close>.
\<close>

datatype event =
    Add jsstring int int
  | Delete bool int
  | Toggle int
  | Edit int jsstring
  | ClearCompleted bool
  | ClearAll bool

fun dispatch :: "event \<Rightarrow> TodoApp \<Rightarrow> TodoApp" where
  "dispatch (Add raw now now') app = snd (addTask now now' (app\<lparr>taskInput := raw\<rparr>))"
| "dispatch (Delete ok i) app = deleteTask ok i app"
| "dispatch (Toggle i) app = toggleTask i app"
| "dispatch (Edit i raw) app = saveEdit i raw app"
| "dispatch (ClearCompleted ok) app = clearCompleted ok app"
| "dispatch (ClearAll ok) app = clearAll ok app"

text \<open>Two tasks used as concrete inputs below.\<close>

definition taskA :: Task where
  "taskA = \<lparr>id' = 1, text' = js ''A'', completed = True, createdAt = TimeValue 1\<rparr>"

definition taskB :: Task where
  "taskB = \<lparr>id' = 2, text' = js ''B'', completed = False, createdAt = TimeValue 2\<rparr>"

subsection \<open>The snapshot format of the specification\<close>

text \<open>
  The specification describes the stored value as an array of records with a number
  \<^verbatim>\<open>id\<close>, a string \<^verbatim>\<open>text\<close>, a boolean \<^verbatim>\<open>completed\<close> and a string or number
  \<^verbatim>\<open>createdAt\<close>. A stored string is malformed when it does not parse to such a value. The
  code has no such check; these definitions only say which stored strings the
  specification calls malformed.
\<close>

definition specRecord :: "json \<Rightarrow> bool" where
  "specRecord t =
     (case t of
        JObject members \<Rightarrow>
          (case getProperty (js ''id'') members of Some (JNumber m e) \<Rightarrow> True | _ \<Rightarrow> False) \<and>
          (case getProperty (js ''text'') members of Some (JString s) \<Rightarrow> True | _ \<Rightarrow> False) \<and>
          (case getProperty (js ''completed'') members of Some (JBool b) \<Rightarrow> True | _ \<Rightarrow> False) \<and>
          (case getProperty (js ''createdAt'') members of
             Some (JString s) \<Rightarrow> True | Some (JNumber m e) \<Rightarrow> True | _ \<Rightarrow> False)
      | _ \<Rightarrow> False)"

definition specSnapshot :: "json \<Rightarrow> bool" where
  "specSnapshot v = (case v of JArray elems \<Rightarrow> list_all specRecord elems | _ \<Rightarrow> False)"

definition malformed :: "jsstring \<Rightarrow> bool" where
  "malformed stored = (case JSON_parse stored of Inl e \<Rightarrow> True | Inr v \<Rightarrow> \<not> specSnapshot v)"

subsection \<open>Well-formed tasks and the parsed form of a snapshot\<close>

text \<open>
  A task is well-formed when its id is an integer that a JavaScript number holds exactly
  and its creation time is a valid date. Its text may be any string.
\<close>

definition wellFormed :: "Task \<Rightarrow> bool" where
  "wellFormed t \<longleftrightarrow>
     \<bar>id' t\<bar> \<le> maxSafeInteger \<and>
     (case createdAt t of InvalidDate \<Rightarrow> False | TimeValue v \<Rightarrow> \<bar>v\<bar> \<le> maxTime)"

text \<open>
  The tokens of a serialised task and of the elements of the array, and the JSON value
  they parse to.
\<close>

definition dateJSON :: "Date \<Rightarrow> json" where
  "dateJSON d = (case d of InvalidDate \<Rightarrow> JNull | TimeValue t \<Rightarrow> JString (toISOString t))"

definition jsonOfTask :: "Task \<Rightarrow> json" where
  "jsonOfTask t =
     JObject [(js ''id'', JNumber (id' t) 0), (js ''text'', JString (text' t)),
              (js ''completed'', JBool (completed t)), (js ''createdAt'', dateJSON (createdAt t))]"

definition tokensOfTask :: "Task \<Rightarrow> token list" where
  "tokensOfTask t =
     [TLBrace, TString (js ''id''), TColon, TNumber (id' t) 0, TComma,
      TString (js ''text''), TColon, TString (text' t), TComma,
      TString (js ''completed''), TColon, (if completed t then TTrue else TFalse), TComma,
      TString (js ''createdAt''), TColon,
      (case createdAt t of InvalidDate \<Rightarrow> TNull | TimeValue v \<Rightarrow> TString (toISOString v)),
      TRBrace]"

fun tokensOfElements :: "Task list \<Rightarrow> token list" where
  "tokensOfElements [] = []"
| "tokensOfElements [t] = tokensOfTask t"
| "tokensOfElements (t # ts) = tokensOfTask t @ TComma # tokensOfElements ts"

section \<open>Properties of the store operations\<close>

subsection \<open>Auxiliary facts\<close>

lemma assignFound_length [simp]: "length (assignFound P f xs) = length xs"
  by (induction xs) auto

lemma assignFound_none: "find P xs = None \<Longrightarrow> assignFound P f xs = xs"
  by (induction xs) (auto split: if_splits)

lemma assignFound_split:
  "\<forall>u\<in>set pre. \<not> P u \<Longrightarrow> P t \<Longrightarrow> assignFound P f (pre @ t # post) = pre @ f t # post"
  by (induction pre) auto

lemma find_split:
  "\<forall>u\<in>set pre. \<not> P u \<Longrightarrow> P t \<Longrightarrow> find P (pre @ t # post) = Some t"
  by (induction pre) auto

lemma assignFound_twice:
  "(\<And>x. P (f x) = P x) \<Longrightarrow> (\<And>x. f (f x) = x) \<Longrightarrow> assignFound P f (assignFound P f xs) = xs"
  by (induction xs) auto

lemma find_assignFound:
  "(\<And>x. P (f x) = P x) \<Longrightarrow> find P (assignFound P f xs) = map_option f (find P xs)"
  by (induction xs) auto

lemma trim_buy_milk: "trim (js ''  Buy milk '') = js ''Buy milk''"
  by (simp add: trim_def js_def isWhiteSpace_def)

lemma count_list_filter:
  "count_list (filter P xs) x = (if P x then count_list xs x else 0)"
  by (induction xs) auto

lemma js_active_neq: "js ''completed'' \<noteq> js ''active''" "js ''all'' \<noteq> js ''active''"
  "js ''all'' \<noteq> js ''completed''"
  by (simp_all add: js_def)

lemma trim_replicate_a: "trim (replicate n 0x61) = replicate n 0x61"
proof -
  have "\<not> isWhiteSpace 0x61"
    by (simp add: isWhiteSpace_def)
  then show ?thesis
    unfolding trim_def by (simp add: dropWhile_replicate)
qed

lemma assignFound_map_id:
  "(\<And>x. g (f x) = g x) \<Longrightarrow> map g (assignFound P f xs) = map g xs"
  by (induction xs) auto

lemma filter_absent: "i \<notin> id' ` set ts \<Longrightarrow> filter (\<lambda>task. id' task \<noteq> i) ts = ts"
  by (induction ts) auto

lemma find_absent: "i \<notin> id' ` set ts \<Longrightarrow> find (\<lambda>t. id' t = i) ts = None"
  by (auto simp add: find_None_iff)

lemma dispatch_distinct:
  assumes "distinct (map id' (tasks app))"
    and "\<And>raw now now'. ev = Add raw now now' \<Longrightarrow> now \<notin> id' ` set (tasks app)"
  shows "distinct (map id' (tasks (dispatch ev app)))"
proof (cases ev)
  case (Add raw now now')
  then show ?thesis
    using assms by (auto simp add: addTask_def Let_def alert_def saveTasks_def new_Task_def)
next
  case (Delete ok i)
  then show ?thesis
    using assms(1) by (simp add: deleteTask_def saveTasks_def distinct_map_filter)
next
  case (Toggle i)
  then show ?thesis
    using assms(1)
    by (simp add: toggleTask_def saveTasks_def assignFound_map_id split: option.splits)
next
  case (Edit i raw)
  then show ?thesis
    using assms(1)
    by (simp add: saveEdit_def Let_def alert_def closeEditModal_def saveTasks_def
        assignFound_map_id split: option.splits)
next
  case (ClearCompleted ok)
  then show ?thesis
    using assms(1) by (simp add: clearCompleted_def saveTasks_def distinct_map_filter)
next
  case (ClearAll ok)
  then show ?thesis
    by (simp add: clearAll_def saveTasks_def assms(1))
qed

subsection \<open>Adding a task\<close>

text \<open>
  Claim C1, as the code has it. When the trimmed value of the input element is not empty
  and has at most 100 code units, \<^verbatim>\<open>addTask\<close> appends exactly one task to the
  collection, so that its size grows by one and the tasks before it are unchanged; the
  new task is not completed, its text is the trimmed input, its id is the reading of
  \<^verbatim>\<open>Date.now()\<close>. The call returns \<^verbatim>\<open>undefined\<close>, not the new task.
\<close>

theorem addTask_appends:
  assumes "trim (taskInput app) \<noteq> []" and "length (trim (taskInput app)) \<le> 100"
  shows "tasks (snd (addTask now now' app)) =
           tasks app @ [\<lparr>id' = now, text' = trim (taskInput app), completed = False,
                         createdAt = TimeValue now'\<rparr>]
         \<and> length (tasks (snd (addTask now now' app))) = length (tasks app) + 1
         \<and> completed (last (tasks (snd (addTask now now' app)))) = False
         \<and> text' (last (tasks (snd (addTask now now' app)))) = trim (taskInput app)
         \<and> fst (addTask now now' app) = None"
  using assms by (simp add: addTask_def Let_def saveTasks_def new_Task_def)

theorem addTask_appends_witness:
  "trim (taskInput ((blankApp None)\<lparr>taskInput := js ''  Buy milk ''\<rparr>)) \<noteq> [] \<and>
   length (trim (taskInput ((blankApp None)\<lparr>taskInput := js ''  Buy milk ''\<rparr>))) \<le> 100 \<and>
   tasks (snd (addTask 1700000000000 1700000000001 ((blankApp None)\<lparr>taskInput := js ''  Buy milk ''\<rparr>))) =
     [\<lparr>id' = 1700000000000, text' = js ''Buy milk'', completed = False,
       createdAt = TimeValue 1700000000001\<rparr>]"
  using addTask_appends [of "(blankApp None)\<lparr>taskInput := js ''  Buy milk ''\<rparr>" 1700000000000 1700000000001]
  by (simp add: trim_buy_milk blankApp_def) (simp add: js_def)

text \<open>
  The claim as stated also lets \<^verbatim>\<open>addTask\<close> return the new task. On the valid input
  \<^verbatim>\<open>Buy milk\<close> a task is appended, but the value returned is \<^verbatim>\<open>undefined\<close>.
\<close>

theorem addTask_returns_undefined:
  "trim (js ''Buy milk'') \<noteq> [] \<and> length (trim (js ''Buy milk'')) \<le> 100 \<and>
   fst (addTask 1700000000000 1700000000001 ((blankApp None)\<lparr>taskInput := js ''Buy milk''\<rparr>)) \<noteq>
     Some (last (tasks (snd (addTask 1700000000000 1700000000001
       ((blankApp None)\<lparr>taskInput := js ''Buy milk''\<rparr>)))))"
  by (simp add: addTask_def Let_def trim_def js_def isWhiteSpace_def)

text \<open>
  Claim C2. \<^verbatim>\<open>addTask\<close> reports the empty-input error (the alert
  \<^verbatim>\<open>Please enter a task!\<close>) exactly when the trimmed input is empty, and the too-long
  error (the alert \<^verbatim>\<open>Task is too long! Maximum 100 characters.\<close>) exactly when the
  trimmed input has more than 100 code units; it raises no alert otherwise. In both
  failure cases the task collection, the stored snapshot and the input element are
  unchanged.
\<close>

theorem addTask_validation:
  "(alerts (snd (addTask now now' app)) = alerts app @ [''Please enter a task!'']
      \<longleftrightarrow> trim (taskInput app) = [])
   \<and> (alerts (snd (addTask now now' app)) = alerts app @ [''Task is too long! Maximum 100 characters.'']
      \<longleftrightarrow> length (trim (taskInput app)) > 100)
   \<and> (alerts (snd (addTask now now' app)) = alerts app
      \<longleftrightarrow> trim (taskInput app) \<noteq> [] \<and> length (trim (taskInput app)) \<le> 100)
   \<and> (trim (taskInput app) = [] \<or> length (trim (taskInput app)) > 100 \<longrightarrow>
        tasks (snd (addTask now now' app)) = tasks app
        \<and> storage (snd (addTask now now' app)) = storage app
        \<and> taskInput (snd (addTask now now' app)) = taskInput app)"
  by (auto simp add: addTask_def Let_def saveTasks_def alert_def)

theorem addTask_validation_witness:
  "alerts (snd (addTask 7 7 ((blankApp None)\<lparr>taskInput := js ''   ''\<rparr>))) = [''Please enter a task!'']
   \<and> tasks (snd (addTask 7 7 ((blankApp None)\<lparr>taskInput := js ''   ''\<rparr>))) = []
   \<and> alerts (snd (addTask 7 7 ((blankApp None)\<lparr>taskInput := replicate 101 0x61\<rparr>))) =
        [''Task is too long! Maximum 100 characters.'']
   \<and> tasks (snd (addTask 7 7 ((blankApp None)\<lparr>taskInput := replicate 101 0x61\<rparr>))) = []"
proof -
  have e: "trim (js ''   '') = []"
    by (simp add: trim_def js_def isWhiteSpace_def)
  have "\<not> isWhiteSpace 0x61"
    by (simp add: isWhiteSpace_def)
  then have l: "trim (replicate 101 0x61) = replicate 101 0x61"
    unfolding trim_def by (simp add: dropWhile_replicate)
  show ?thesis
    using addTask_validation [of 7 7 "(blankApp None)\<lparr>taskInput := js ''   ''\<rparr>"]
      addTask_validation [of 7 7 "(blankApp None)\<lparr>taskInput := replicate 101 0x61\<rparr>"]
    by (simp add: e l blankApp_def)
qed

subsection \<open>Filtering\<close>

text \<open>
  Claim C5. \<^verbatim>\<open>getFilteredTasks\<close> returns a subsequence of the collection, so the
  insertion order is kept. Under the filter \<^verbatim>\<open>active\<close> it holds every task that is
  not completed as often as the collection does and no completed task; under
  \<^verbatim>\<open>completed\<close> every completed task as often as the collection does and no other;
  under any other filter value, \<^verbatim>\<open>all\<close> among them, it is the whole collection.
  \<^verbatim>\<open>setFilter\<close> stores the value it is given.
\<close>

theorem getFilteredTasks_exact:
  "subseq (getFilteredTasks app) (tasks app)
   \<and> (currentFilter app = js ''active'' \<longrightarrow>
        (\<forall>t. count_list (getFilteredTasks app) t =
              (if completed t = False then count_list (tasks app) t else 0)))
   \<and> (currentFilter app = js ''completed'' \<longrightarrow>
        (\<forall>t. count_list (getFilteredTasks app) t =
              (if completed t = True then count_list (tasks app) t else 0)))
   \<and> (currentFilter app \<noteq> js ''active'' \<and> currentFilter app \<noteq> js ''completed'' \<longrightarrow>
        getFilteredTasks app = tasks app)
   \<and> getFilteredTasks (setFilter f app) = getFilteredTasks (app\<lparr>currentFilter := f\<rparr>)"
  by (simp add: getFilteredTasks_def setFilter_def count_list_filter js_active_neq)

theorem getFilteredTasks_exact_witness:
  "getFilteredTasks (setFilter (js ''completed'') ((blankApp None)\<lparr>tasks := [taskA, taskB]\<rparr>)) = [taskA]
   \<and> getFilteredTasks (setFilter (js ''active'') ((blankApp None)\<lparr>tasks := [taskA, taskB]\<rparr>)) = [taskB]
   \<and> getFilteredTasks (setFilter (js ''all'') ((blankApp None)\<lparr>tasks := [taskA, taskB]\<rparr>)) = [taskA, taskB]
   \<and> getFilteredTasks (setFilter (js ''done'') ((blankApp None)\<lparr>tasks := [taskA, taskB]\<rparr>)) = [taskA, taskB]
   \<and> count_list (getFilteredTasks ((blankApp None)\<lparr>tasks := [taskA, taskB], currentFilter := js ''active''\<rparr>)) taskB = 1"
  using getFilteredTasks_exact [of "(blankApp None)\<lparr>tasks := [taskA, taskB], currentFilter := js ''active''\<rparr>" "js ''all''"]
  by (simp add: getFilteredTasks_def setFilter_def blankApp_def taskA_def taskB_def js_def)

subsection \<open>Editing\<close>

text \<open>
  Claim C6. \<^verbatim>\<open>saveEdit\<close> trims the new text and reports the alert
  \<^verbatim>\<open>Task cannot be empty!\<close> exactly when the trimmed text is empty, leaving the
  collection as it is. For every other text, of any length, it raises no alert, replaces
  the text of the first task with the id and changes nothing when no task has the id.
\<close>

theorem saveEdit_spec:
  "(alerts (saveEdit i raw app) = alerts app @ [''Task cannot be empty!''] \<longleftrightarrow> trim raw = [])
   \<and> (trim raw = [] \<longrightarrow> tasks (saveEdit i raw app) = tasks app)
   \<and> (trim raw \<noteq> [] \<longrightarrow>
        alerts (saveEdit i raw app) = alerts app
        \<and> (i \<notin> id' ` set (tasks app) \<longrightarrow> saveEdit i raw app = app)
        \<and> (\<forall>pre t post. tasks app = pre @ t # post \<and> i \<notin> id' ` set pre \<and> id' t = i \<longrightarrow>
              tasks (saveEdit i raw app) = pre @ t\<lparr>text' := trim raw\<rparr> # post))"
proof -
  have none: "find (\<lambda>t. id' t = i) (tasks app) = None" if "i \<notin> id' ` set (tasks app)"
    using that by (auto simp add: find_None_iff)
  have split: "tasks (saveEdit i raw app) = pre @ t\<lparr>text' := trim raw\<rparr> # post"
    if "trim raw \<noteq> []" "tasks app = pre @ t # post" "i \<notin> id' ` set pre" "id' t = i"
    for pre t post
  proof -
    have p: "\<forall>u\<in>set pre. \<not> id' u = i"
      using that(3) by auto
    show ?thesis
      using that(1,2) find_split [OF p that(4), of post]
        assignFound_split [OF p that(4), of "\<lambda>t. t\<lparr>text' := trim raw\<rparr>" post]
      by (simp add: saveEdit_def Let_def closeEditModal_def saveTasks_def)
  qed
  have al: "alerts (saveEdit i raw app) = alerts app" if "trim raw \<noteq> []"
    using that
    by (simp add: saveEdit_def Let_def closeEditModal_def saveTasks_def split: option.splits)
  show ?thesis
    using none split al
    by (auto simp add: saveEdit_def Let_def alert_def)
qed

theorem saveEdit_spec_witness:
  "trim (replicate 101 0x61) \<noteq> [] \<and> length (trim (replicate 101 0x61)) > 100
   \<and> tasks (saveEdit 2 (replicate 101 0x61) ((blankApp None)\<lparr>tasks := [taskA, taskB]\<rparr>)) =
       [taskA, taskB\<lparr>text' := replicate 101 0x61\<rparr>]
   \<and> saveEdit 3 (replicate 101 0x61) ((blankApp None)\<lparr>tasks := [taskA, taskB]\<rparr>) =
       (blankApp None)\<lparr>tasks := [taskA, taskB]\<rparr>
   \<and> alerts (saveEdit 2 (js ''  '') ((blankApp None)\<lparr>tasks := [taskA, taskB]\<rparr>)) =
       [''Task cannot be empty!'']
   \<and> tasks (saveEdit 2 (js ''  '') ((blankApp None)\<lparr>tasks := [taskA, taskB]\<rparr>)) = [taskA, taskB]"
proof -
  let ?app = "(blankApp None)\<lparr>tasks := [taskA, taskB]\<rparr>"
  have e: "trim (js ''  '') = []"
    by (simp add: trim_def js_def isWhiteSpace_def)
  have t: "tasks ?app = [taskA] @ taskB # []" "2 \<notin> id' ` set [taskA]" "id' taskB = 2"
    "3 \<notin> id' ` set (tasks ?app)"
    by (simp_all add: taskA_def taskB_def)
  have n: "trim (replicate 101 0x61) \<noteq> []"
    by (simp add: trim_replicate_a)
  from saveEdit_spec [of 2 "replicate 101 0x61" ?app] n t(1,2,3)
  have a: "tasks (saveEdit 2 (replicate 101 0x61) ?app) = [taskA, taskB\<lparr>text' := replicate 101 0x61\<rparr>]"
    by (metis append_Cons append_Nil trim_replicate_a)
  from saveEdit_spec [of 3 "replicate 101 0x61" ?app] n t(4)
  have b: "saveEdit 3 (replicate 101 0x61) ?app = ?app"
    by blast
  from saveEdit_spec [of 2 "js ''  ''" ?app] e
  have c: "alerts (saveEdit 2 (js ''  '') ?app) = [''Task cannot be empty!'']"
    "tasks (saveEdit 2 (js ''  '') ?app) = [taskA, taskB]"
    by (simp_all add: blankApp_def)
  show ?thesis
    using a b c n by (simp add: trim_replicate_a)
qed

subsection \<open>Toggling\<close>

text \<open>
  Claim C7. Toggling the same id twice gives back the collection it started from: the
  completed flag of the task is restored, and nothing else in the collection differs.
\<close>

theorem toggleTask_twice:
  "tasks (toggleTask i (toggleTask i app)) = tasks app"
proof (cases "find (\<lambda>t. id' t = i) (tasks app)")
  case None
  then show ?thesis
    by (simp add: toggleTask_def)
next
  case (Some task)
  let ?P = "\<lambda>t. id' t = i" and ?f = "\<lambda>t::Task. t\<lparr>completed := \<not> completed t\<rparr>"
  have "find ?P (assignFound ?P ?f (tasks app)) = Some (?f task)"
    using Some by (simp add: find_assignFound)
  moreover have "assignFound ?P ?f (assignFound ?P ?f (tasks app)) = tasks app"
    by (rule assignFound_twice) simp_all
  ultimately show ?thesis
    using Some by (simp add: toggleTask_def saveTasks_def)
qed

text \<open>
  Claim C10. When the first task with the id is \<open>t\<close>, at position \<open>length pre\<close>,
  \<^verbatim>\<open>toggleTask\<close> negates its completed flag and nothing else: the ids, texts and
  creation times of all tasks, the number and the order of the tasks and every task at
  another position are unchanged, and so is the current filter. Of the whole state only
  the collection and the stored snapshot change.
\<close>

theorem toggleTask_frame:
  assumes "tasks app = pre @ t # post" and "i \<notin> id' ` set pre" and "id' t = i"
  shows "tasks (toggleTask i app) = pre @ t\<lparr>completed := \<not> completed t\<rparr> # post
    \<and> map id' (tasks (toggleTask i app)) = map id' (tasks app)
    \<and> map text' (tasks (toggleTask i app)) = map text' (tasks app)
    \<and> map createdAt (tasks (toggleTask i app)) = map createdAt (tasks app)
    \<and> length (tasks (toggleTask i app)) = length (tasks app)
    \<and> (\<forall>j. j \<noteq> length pre \<longrightarrow> tasks (toggleTask i app) ! j = tasks app ! j)
    \<and> completed (tasks (toggleTask i app) ! length pre) = (\<not> completed (tasks app ! length pre))
    \<and> currentFilter (toggleTask i app) = currentFilter app
    \<and> toggleTask i app = app\<lparr>tasks := tasks (toggleTask i app),
         storage := Some (JSON_stringify (tasks (toggleTask i app)))\<rparr>"
proof -
  have p: "\<forall>u\<in>set pre. \<not> id' u = i"
    using assms(2) by auto
  have ts: "tasks (toggleTask i app) = pre @ t\<lparr>completed := \<not> completed t\<rparr> # post"
    using assms(1) find_split [OF p assms(3), of post]
      assignFound_split [OF p assms(3), of "\<lambda>t. t\<lparr>completed := \<not> completed t\<rparr>" post]
    by (simp add: toggleTask_def saveTasks_def)
  have fr: "toggleTask i app = app\<lparr>tasks := tasks (toggleTask i app),
         storage := Some (JSON_stringify (tasks (toggleTask i app)))\<rparr>"
    using assms(1) find_split [OF p assms(3), of post]
    by (simp add: toggleTask_def saveTasks_def)
  have nth: "tasks (toggleTask i app) ! j = tasks app ! j" if "j \<noteq> length pre" for j
    using that by (simp add: ts assms(1) nth_append nth_Cons')
  have cf: "currentFilter (toggleTask i app) = currentFilter app"
    by (simp add: toggleTask_def saveTasks_def split: option.splits)
  show ?thesis
    using ts nth fr cf by (simp add: assms(1))
qed

theorem toggleTask_frame_witness:
  "tasks ((blankApp None)\<lparr>tasks := [taskA, taskB]\<rparr>) = [taskA] @ taskB # []
   \<and> 2 \<notin> id' ` set [taskA] \<and> id' taskB = 2
   \<and> tasks (toggleTask 2 ((blankApp None)\<lparr>tasks := [taskA, taskB]\<rparr>)) =
       [taskA, \<lparr>id' = 2, text' = js ''B'', completed = True, createdAt = TimeValue 2\<rparr>]
   \<and> currentFilter (toggleTask 2 ((blankApp None)\<lparr>tasks := [taskA, taskB]\<rparr>)) = js ''all''"
proof -
  let ?app = "(blankApp None)\<lparr>tasks := [taskA, taskB]\<rparr>"
  have h: "tasks ?app = [taskA] @ taskB # []" "2 \<notin> id' ` set [taskA]" "id' taskB = 2"
    by (simp_all add: taskA_def taskB_def)
  from toggleTask_frame [OF h]
  have "tasks (toggleTask 2 ?app) = [taskA] @ taskB\<lparr>completed := \<not> completed taskB\<rparr> # []"
    and "currentFilter (toggleTask 2 ?app) = currentFilter ?app"
    by blast+
  then show ?thesis
    using h by (simp add: taskB_def blankApp_def)
qed

subsection \<open>Ids that are not in the collection\<close>

text \<open>
  Claim C8, as the code has it. For an id that no task has, \<^verbatim>\<open>deleteTask\<close> leaves
  the collection unchanged and reports nothing, whatever the answer to the confirmation;
  \<^verbatim>\<open>toggleTask\<close> changes nothing at all; \<^verbatim>\<open>saveEdit\<close> leaves the collection
  unchanged, and changes nothing at all when the trimmed text is not empty. When the
  trimmed text is empty \<^verbatim>\<open>saveEdit\<close> reports the alert \<^verbatim>\<open>Task cannot be empty!\<close>,
  since it validates the text before it looks the id up. Deleting an id a second time
  changes nothing.
\<close>

theorem absent_id_no_change:
  assumes "i \<notin> id' ` set (tasks app)"
  shows "tasks (deleteTask ok i app) = tasks app
    \<and> alerts (deleteTask ok i app) = alerts app
    \<and> console (deleteTask ok i app) = console app
    \<and> toggleTask i app = app
    \<and> tasks (saveEdit i raw app) = tasks app
    \<and> (trim raw \<noteq> [] \<longrightarrow> saveEdit i raw app = app)
    \<and> (trim raw = [] \<longrightarrow> saveEdit i raw app = app\<lparr>alerts := alerts app @ [''Task cannot be empty!'']\<rparr>)
    \<and> deleteTask ok' j (deleteTask True j app') = deleteTask True j app'"
  using filter_absent [OF assms] find_absent [OF assms]
  by (simp add: deleteTask_def toggleTask_def saveEdit_def saveTasks_def Let_def alert_def)

theorem absent_id_no_change_witness:
  "3 \<notin> id' ` set (tasks ((blankApp None)\<lparr>tasks := [taskA, taskB]\<rparr>))
   \<and> tasks (deleteTask True 3 ((blankApp None)\<lparr>tasks := [taskA, taskB]\<rparr>)) = [taskA, taskB]
   \<and> toggleTask 3 ((blankApp None)\<lparr>tasks := [taskA, taskB]\<rparr>) = (blankApp None)\<lparr>tasks := [taskA, taskB]\<rparr>
   \<and> saveEdit 3 (js ''C'') ((blankApp None)\<lparr>tasks := [taskA, taskB]\<rparr>) = (blankApp None)\<lparr>tasks := [taskA, taskB]\<rparr>
   \<and> tasks (deleteTask True 2 ((blankApp None)\<lparr>tasks := [taskA, taskB]\<rparr>)) = [taskA]
   \<and> deleteTask True 2 (deleteTask True 2 ((blankApp None)\<lparr>tasks := [taskA, taskB]\<rparr>)) =
       deleteTask True 2 ((blankApp None)\<lparr>tasks := [taskA, taskB]\<rparr>)"
proof -
  let ?app = "(blankApp None)\<lparr>tasks := [taskA, taskB]\<rparr>"
  have h: "3 \<notin> id' ` set (tasks ?app)"
    by (simp add: taskA_def taskB_def)
  have c: "trim (js ''C'') \<noteq> []"
    by (simp add: trim_def js_def isWhiteSpace_def)
  have d: "tasks (deleteTask True 2 ?app) = [taskA]"
    by (simp add: deleteTask_def saveTasks_def taskA_def taskB_def)
  show ?thesis
    using absent_id_no_change [OF h, of True "js ''C''" True 2 ?app] h c d
    by simp
qed

text \<open>
  The claim as stated lets \<^verbatim>\<open>saveEdit\<close> raise nothing for every absent id and every
  text. With a blank text and an id that no task has, an alert is raised.
\<close>

theorem saveEdit_absent_id_blank_text_alerts:
  "7 \<notin> id' ` set (tasks (blankApp None))
   \<and> alerts (saveEdit 7 (js '' '') (blankApp None)) = [''Task cannot be empty!'']
   \<and> alerts (blankApp None) = []
   \<and> saveEdit 7 (js '' '') (blankApp None) \<noteq> blankApp None"
proof -
  have e: "trim (js '' '') = []"
    by (simp add: trim_def js_def isWhiteSpace_def)
  have a: "alerts (saveEdit 7 (js '' '') (blankApp None)) = [''Task cannot be empty!'']"
    by (simp add: saveEdit_def e alert_def blankApp_def)
  have b: "alerts (blankApp None) = []"
    by (simp add: blankApp_def)
  have "saveEdit 7 (js '' '') (blankApp None) \<noteq> blankApp None"
    using a b by (metis list.distinct(1))
  then show ?thesis
    using a b by (simp add: blankApp_def)
qed

subsection \<open>Uniqueness of ids\<close>

text \<open>
  Claim C9 fails on the code: the id of a new task is the reading of \<^verbatim>\<open>Date.now()\<close>,
  and \<^verbatim>\<open>addTask\<close> does not compare it with the ids in the collection. Two adds in the
  same millisecond, starting from the empty collection, give two tasks with one id.
  (Lemma \<open>dispatch_distinct\<close> shows that this is the only way: an event keeps the ids
  distinct whenever the clock reading of an add is not an id of the collection.)
\<close>

theorem same_tick_adds_share_id:
  "tasks (blankApp None) = []
   \<and> map id' (tasks (fold dispatch
        [Add (js ''A'') 1700000000000 1700000000000, Add (js ''B'') 1700000000000 1700000000000]
        (blankApp None))) = [1700000000000, 1700000000000]
   \<and> \<not> distinct (map id' (tasks (fold dispatch
        [Add (js ''A'') 1700000000000 1700000000000, Add (js ''B'') 1700000000000 1700000000000]
        (blankApp None))))"
proof -
  have a: "trim (js ''A'') = js ''A''" and b: "trim (js ''B'') = js ''B''"
    by (simp_all add: trim_def js_def isWhiteSpace_def)
  have n: "js ''A'' \<noteq> []" "js ''B'' \<noteq> []" "length (js ''A'') = 1" "length (js ''B'') = 1"
    by (simp_all add: js_def)
  show ?thesis
    by (simp add: addTask_def Let_def a b n saveTasks_def new_Task_def blankApp_def)
qed

section \<open>Properties of saving and loading\<close>

subsection \<open>The calendar\<close>

text \<open>
  The year computed by \<open>YearFromDay\<close> is the one the language specification asks for:
  the largest year whose first day is not after the given day (\<open>YearFromDay_bounds\<close>,
  \<open>YearFromDay_largest\<close>). Composing a date from the fields of a time value gives the
  time value back (\<open>MakeDate_inverse\<close>).
\<close>

lemma div_step:
  fixes x c :: int
  assumes "0 < c"
  shows "(x + 1) div c = x div c + (if (x + 1) mod c = 0 then 1 else 0)"
proof -
  define q r where "q = x div c" and "r = x mod c"
  have a: "x = c * q + r" by (simp add: q_def r_def)
  have b: "0 \<le> r" "r < c" using assms by (simp_all add: r_def)
  show ?thesis
  proof (cases "r = c - 1")
    case True
    then have e: "x + 1 = c * (q + 1)"
      using a by (simp add: algebra_simps)
    have "(c * (q + 1)) div c = q + 1" "(c * (q + 1)) mod c = 0"
      using assms by simp_all
    then show ?thesis
      unfolding e by (simp add: q_def)
  next
    case False
    then have r: "0 \<le> r + 1" "r + 1 < c" using b by linarith+
    have e: "x + 1 = (r + 1) + c * q" using a by simp
    have "((r + 1) + c * q) div c = q" "((r + 1) + c * q) mod c = r + 1"
      using r assms by (simp_all add: div_pos_pos_trivial mod_pos_pos_trivial)
    then show ?thesis
      unfolding e using r b by (simp add: q_def)
  qed
qed

lemma DayFromYear_step_4: "(y - 1968) div 4 = (y - 1969) div 4 + (if y mod 4 = 0 then 1 else 0)" for y :: int
  using div_step [of 4 "y - 1969"] by (simp add: mod_diff_eq [symmetric] algebra_simps) 

lemma DayFromYear_step_100: "(y - 1900) div 100 = (y - 1901) div 100 + (if y mod 100 = 0 then 1 else 0)" for y :: int
  using div_step [of 100 "y - 1901"] by (simp add: mod_diff_eq [symmetric] algebra_simps)

lemma DayFromYear_step_400: "(y - 1600) div 400 = (y - 1601) div 400 + (if y mod 400 = 0 then 1 else 0)" for y :: int
  using div_step [of 400 "y - 1601"] by (simp add: mod_diff_eq [symmetric] algebra_simps)

lemma mod_400_100: "y mod 400 = 0 \<Longrightarrow> y mod 100 = 0" for y :: int
proof -
  assume "y mod 400 = 0"
  then have "400 dvd y"
    by (simp add: mod_eq_0_iff_dvd)
  moreover have "(100::int) dvd 400"
    by simp
  ultimately have "100 dvd y"
    by (rule dvd_trans [rotated])
  then show ?thesis
    by (simp add: mod_eq_0_iff_dvd)
qed

lemma mod_100_4: "y mod 100 = 0 \<Longrightarrow> y mod 4 = 0" for y :: int
  by presburger

lemma DayFromYear_Suc: "DayFromYear (y + 1) = DayFromYear y + DaysInYear y"
  using mod_400_100 [of y] mod_100_4 [of y]
  by (auto simp add: DayFromYear_def DaysInYear_def DayFromYear_step_4 DayFromYear_step_100 DayFromYear_step_400)

lemma div_bracket:
  fixes x c :: int
  assumes "0 < c"
  shows "c * (x div c) \<le> x" and "x < c * (x div c) + c"
proof -
  have "x = c * (x div c) + x mod c" "0 \<le> x mod c" "x mod c < c"
    using assms by simp_all
  then show "c * (x div c) \<le> x" and "x < c * (x div c) + c"
    by linarith+
qed

lemma DayFromYear_brackets:
  "4 * ((y - 1969) div 4) \<le> y - 1969" "y - 1969 < 4 * ((y - 1969) div 4) + 4"
  "100 * ((y - 1901) div 100) \<le> y - 1901" "y - 1901 < 100 * ((y - 1901) div 100) + 100"
  "400 * ((y - 1601) div 400) \<le> y - 1601" "y - 1601 < 400 * ((y - 1601) div 400) + 400"
  for y :: int
  by (rule div_bracket, simp)+

lemma DayFromYear_upper: "400 * DayFromYear y \<le> 146097 * (y - 1970) + 589"
  using DayFromYear_brackets [of y]
  unfolding DayFromYear_def by (simp add: algebra_simps)

lemma DayFromYear_lower: "146097 * (y - 1970) - 506 \<le> 400 * DayFromYear y"
  using DayFromYear_brackets [of y]
  unfolding DayFromYear_def by (simp add: algebra_simps)

lemma YearFromDay_bounds:
  "DayFromYear (YearFromDay d) \<le> d" "d < DayFromYear (YearFromDay d + 1)"
proof -
  define y where "y = 1970 + (400 * d) div 146097"
  have "146097 * ((400 * d) div 146097) \<le> 400 * d"
    "400 * d < 146097 * ((400 * d) div 146097) + 146097"
    by (rule div_bracket, simp)+
  then have e: "146097 * (y - 1970) \<le> 400 * d" "400 * d < 146097 * (y - 1970) + 146097"
    by (simp_all add: y_def)
  have lo: "DayFromYear (y - 1) \<le> d"
    using DayFromYear_upper [of "y - 1"] e by (simp add: algebra_simps)
  have hi: "d < DayFromYear (y + 1 + 1)"
    using DayFromYear_lower [of "y + 1 + 1"] e by (simp add: algebra_simps)
  have yd: "YearFromDay d =
      (if DayFromYear (y + 1) \<le> d then y + 1 else if d < DayFromYear y then y - 1 else y)"
    by (simp add: YearFromDay_def y_def Let_def)
  show "DayFromYear (YearFromDay d) \<le> d"
    using lo by (simp add: yd)
  show "d < DayFromYear (YearFromDay d + 1)"
    using hi by (simp add: yd)
qed

lemma DayFromYear_mono: "a \<le> b \<Longrightarrow> DayFromYear a \<le> DayFromYear b"
proof (induction b rule: int_ge_induct)
  case base
  then show ?case by simp
next
  case (step i)
  have "DayFromYear (i + 1) = DayFromYear i + DaysInYear i"
    by (rule DayFromYear_Suc)
  moreover have "0 \<le> DaysInYear i"
    by (simp add: DaysInYear_def)
  ultimately show ?case
    using step by linarith
qed

lemma YearFromDay_largest:
  assumes "DayFromYear z \<le> d"
  shows "z \<le> YearFromDay d"
proof (rule ccontr)
  assume "\<not> z \<le> YearFromDay d"
  then have "YearFromDay d + 1 \<le> z"
    by simp
  then have "DayFromYear (YearFromDay d + 1) \<le> DayFromYear z"
    by (rule DayFromYear_mono)
  then show False
    using YearFromDay_bounds(2) [of d] assms by linarith
qed

lemma YearFromDay_range:
  assumes "- 100000000 \<le> d" and "d \<le> 100000000"
  shows "- 271821 \<le> YearFromDay d" "YearFromDay d \<le> 275760"
proof -
  show "- 271821 \<le> YearFromDay d"
    using YearFromDay_bounds(2) [of d] DayFromYear_upper [of "YearFromDay d + 1"] assms(1)
    by (simp add: algebra_simps)
  show "YearFromDay d \<le> 275760"
    using YearFromDay_bounds(1) [of d] DayFromYear_lower [of "YearFromDay d"] assms(2)
    by (simp add: algebra_simps)
qed

lemma DayWithinYear_range:
  "0 \<le> DayWithinYear t" "DayWithinYear t < DaysInYear (YearFromTime t)"
  using YearFromDay_bounds [of "Day t"] DayFromYear_Suc [of "YearFromDay (Day t)"]
  by (simp_all add: DayWithinYear_def YearFromTime_def)

lemma DaysInYear_cases: "DaysInYear y = 365 \<or> DaysInYear y = 366"
  by (simp add: DaysInYear_def)

lemma MonthFromTime_range: "0 \<le> MonthFromTime t" "MonthFromTime t \<le> 11"
  by (simp_all add: MonthFromTime_def Let_def)

lemma MonthFromTime_cases:
  fixes t :: int
  defines "d \<equiv> DayWithinYear t" and "l \<equiv> InLeapYear t" and "m \<equiv> MonthFromTime t"
  shows "(m = 0 \<and> d < 31) \<or> (m = 1 \<and> 31 \<le> d \<and> d < 59 + l) \<or>
    (m = 2 \<and> 59 + l \<le> d \<and> d < 90 + l) \<or> (m = 3 \<and> 90 + l \<le> d \<and> d < 120 + l) \<or>
    (m = 4 \<and> 120 + l \<le> d \<and> d < 151 + l) \<or> (m = 5 \<and> 151 + l \<le> d \<and> d < 181 + l) \<or>
    (m = 6 \<and> 181 + l \<le> d \<and> d < 212 + l) \<or> (m = 7 \<and> 212 + l \<le> d \<and> d < 243 + l) \<or>
    (m = 8 \<and> 243 + l \<le> d \<and> d < 273 + l) \<or> (m = 9 \<and> 273 + l \<le> d \<and> d < 304 + l) \<or>
    (m = 10 \<and> 304 + l \<le> d \<and> d < 334 + l) \<or> (m = 11 \<and> 334 + l \<le> d)"
  unfolding d_def l_def m_def MonthFromTime_def Let_def by simp

lemma InLeapYear_DaysInYear: "DaysInYear (YearFromTime t) = 365 + InLeapYear t"
  using DaysInYear_cases [of "YearFromTime t"] by (auto simp add: InLeapYear_def)

lemma MonthStart_leap:
  "MonthStart (YearFromTime t) k =
     (if k = 0 then 0 else if k = 1 then 31 else if k = 2 then 59 + InLeapYear t
      else if k = 3 then 90 + InLeapYear t else if k = 4 then 120 + InLeapYear t
      else if k = 5 then 151 + InLeapYear t else if k = 6 then 181 + InLeapYear t
      else if k = 7 then 212 + InLeapYear t else if k = 8 then 243 + InLeapYear t
      else if k = 9 then 273 + InLeapYear t else if k = 10 then 304 + InLeapYear t
      else 334 + InLeapYear t)"
  by (simp add: MonthStart_def InLeapYear_def Let_def)

lemma InLeapYear_cases: "InLeapYear t = 0 \<or> InLeapYear t = 1"
  by (simp add: InLeapYear_def)

lemma DateFromTime_props:
  "MonthStart (YearFromTime t) (MonthFromTime t) + DateFromTime t - 1 = DayWithinYear t"
  "1 \<le> DateFromTime t"
  "DateFromTime t \<le> DaysInMonth (YearFromTime t) (MonthFromTime t)"
  using MonthFromTime_cases [of t] DayWithinYear_range [of t] InLeapYear_cases [of t]
  unfolding InLeapYear_DaysInYear
  by (elim disjE conjE; simp add: DateFromTime_def DaysInMonth_def MonthStart_leap)+

lemma MakeDay_inverse:
  "MakeDay (YearFromTime t) (MonthFromTime t) (DateFromTime t) = Day t"
  using DateFromTime_props(1) [of t]
  by (simp add: MakeDay_def DayWithinYear_def)

lemma time_fields_upper:
  "HourFromTime t < 24" "MinFromTime t < 60" "SecFromTime t < 60" "msFromTime t < 1000"
  unfolding HourFromTime_def MinFromTime_def SecFromTime_def msFromTime_def
  by (rule pos_mod_bound, simp)+

lemma time_fields_lower:
  "0 \<le> HourFromTime t" "0 \<le> MinFromTime t" "0 \<le> SecFromTime t" "0 \<le> msFromTime t"
  unfolding HourFromTime_def MinFromTime_def SecFromTime_def msFromTime_def
  by (rule pos_mod_sign, simp)+

lemma mod_split:
  fixes a b c :: int
  assumes "0 \<le> c"
  shows "a mod (b * c) = b * (a div b mod c) + a mod b" and "a div (b * c) = a div b div c"
  using assms by (rule zmod_zmult2_eq, rule zdiv_zmult2_eq)

lemma MakeTime_inverse:
  "MakeTime (HourFromTime t) (MinFromTime t) (SecFromTime t) (msFromTime t) = TimeWithinDay t"
proof -
  define u v w where "u = t div 1000" and "v = u div 60" and "w = v div 60"
  have n: "(86400000::int) = 1000 * 86400" "(86400::int) = 60 * 1440" "(1440::int) = 60 * 24"
    "(60000::int) = 1000 * 60" "(3600000::int) = 1000 * 60 * 60"
    by simp_all
  have a: "t mod 86400000 = 1000 * (u mod 86400) + t mod 1000"
    unfolding n(1) u_def by (rule mod_split) simp
  have b: "u mod 86400 = 60 * (v mod 1440) + u mod 60"
    unfolding n(2) v_def by (rule mod_split) simp
  have c: "v mod 1440 = 60 * (w mod 24) + v mod 60"
    unfolding n(3) w_def by (rule mod_split) simp
  have d: "t div 60000 = v"
    unfolding n(4) v_def u_def by (rule mod_split) simp
  have "t div (1000 * 60 * 60) = t div (1000 * 60) div 60"
    by (rule mod_split) simp
  also have "t div (1000 * 60) = t div 1000 div 60"
    by (rule mod_split) simp
  finally have e: "t div 3600000 = w"
    unfolding n(5) w_def v_def u_def .
  show ?thesis
    unfolding MakeTime_def HourFromTime_def MinFromTime_def SecFromTime_def msFromTime_def
      TimeWithinDay_def msPerDay_def d e a b c u_def [symmetric]
    by (simp add: algebra_simps)
qed

lemma MakeDate_inverse:
  "MakeDate (MakeDay (YearFromTime t) (MonthFromTime t) (DateFromTime t))
     (MakeTime (HourFromTime t) (MinFromTime t) (SecFromTime t) (msFromTime t)) = t"
  by (simp add: MakeDay_inverse MakeTime_inverse MakeDate_def Day_def TimeWithinDay_def)

lemma YearFromTime_range:
  assumes "- maxTime \<le> t" and "t \<le> maxTime"
  shows "- 271821 \<le> YearFromTime t" "YearFromTime t \<le> 275760"
proof -
  have "(- maxTime) div msPerDay \<le> t div msPerDay" "t div msPerDay \<le> maxTime div msPerDay"
    using assms by (simp_all add: zdiv_mono1 msPerDay_def)
  then have "- 100000000 \<le> Day t" "Day t \<le> 100000000"
    by (simp_all add: Day_def msPerDay_def maxTime_def)
  then show "- 271821 \<le> YearFromTime t" "YearFromTime t \<le> 275760"
    using YearFromDay_range [of "Day t"] by (simp_all add: YearFromTime_def)
qed

subsection \<open>Reading back what toISOString writes\<close>

lemma unat_digit: "d < 10 \<Longrightarrow> unat (digit d) = 48 + d"
proof -
  assume d: "d < 10"
  have "digit d = of_nat (48 + d)"
    by (simp add: digit_def)
  then have "unat (digit d) = (48 + d) mod 2 ^ 16"
    by (simp only: unat_of_nat len_of_numeral_defs) simp
  then show ?thesis
    using d by simp
qed

lemma isDigit_digit: "d < 10 \<Longrightarrow> isDigit (digit d)"
  using unat_digit [of d] by (simp add: isDigit_def word_le_nat_alt)

lemma digitValue_digit: "d < 10 \<Longrightarrow> digitValue (digit d) = d"
  using unat_digit [of d] by (simp add: digitValue_def)

lemma isDigit_not_sign: "isDigit c \<Longrightarrow> c \<noteq> 0x2B \<and> c \<noteq> 0x2D"
  by (auto simp add: isDigit_def)

lemma length_pad [simp]: "length (pad w n) = w"
  by (induction w arbitrary: n) simp_all

lemma isDigit_pad: "list_all isDigit (pad w n)"
  by (induction w arbitrary: n) (simp_all add: isDigit_digit)

lemma natOfDigits_snoc: "natOfDigits (s @ [c]) = 10 * natOfDigits s + digitValue c"
  by (simp add: natOfDigits_def)

lemma natOfDigits_pad: "natOfDigits (pad w n) = n mod 10 ^ w"
proof (induction w arbitrary: n)
  case 0
  then show ?case by (simp add: natOfDigits_def)
next
  case (Suc w)
  have "n mod (10 * 10 ^ w) = 10 * (n div 10 mod 10 ^ w) + n mod 10"
    by (simp add: mod_mult2_eq)
  then show ?case
    by (simp add: natOfDigits_snoc Suc digitValue_digit)
qed

lemma readField_pad:
  "n < 10 ^ w \<Longrightarrow> readField w (pad w n @ rest) = Some (int n, rest)"
  by (simp add: readField_def isDigit_pad natOfDigits_pad)

lemma expect_Cons [simp]: "expect c (c # s) = Some s"
  by (simp add: expect_def)

lemma pad_Suc_Cons: "pad (Suc w) n = digit (n div 10 ^ w mod 10) # pad w n"
proof (induction w arbitrary: n)
  case 0
  then show ?case by simp
next
  case (Suc w)
  have "n div 10 div 10 ^ w = n div (10 * 10 ^ w)"
    by (simp add: div_mult2_eq)
  then show ?case
    using Suc [of "n div 10"] by simp
qed

lemma pad_4: "pad 4 n = digit (n div 1000 mod 10) # pad 3 n"
  using pad_Suc_Cons [of 3 n] by simp

lemma readYear_4:
  assumes "0 \<le> y" and "y \<le> 9999"
  shows "readYear (YearString y @ rest) = Some (y, rest)"
proof -
  have n: "digit (nat y div 1000 mod 10) \<noteq> 0x2B \<and> digit (nat y div 1000 mod 10) \<noteq> 0x2D"
    by (rule isDigit_not_sign, rule isDigit_digit) simp
  have "nat y < 10 ^ 4"
    using assms by simp
  then have "readField 4 (pad 4 (nat y) @ rest) = Some (int (nat y), rest)"
    by (rule readField_pad)
  then have "readField 4 (digit (nat y div 1000 mod 10) # pad 3 (nat y) @ rest) = Some (y, rest)"
    using assms(1) by (simp add: pad_4)
  then show ?thesis
    using assms n by (simp add: readYear_def YearString_def pad_4)
qed

lemma readYear_neg:
  assumes "- 999999 \<le> y" and "y < 0"
  shows "readYear (YearString y @ rest) = Some (y, rest)"
proof -
  have "nat (- y) < 10 ^ 6"
    using assms by simp
  then have "readField 6 (pad 6 (nat (- y)) @ rest) = Some (int (nat (- y)), rest)"
    by (rule readField_pad)
  then show ?thesis
    using assms by (simp add: readYear_def YearString_def)
qed

lemma readYear_pos:
  assumes "9999 < y" and "y \<le> 999999"
  shows "readYear (YearString y @ rest) = Some (y, rest)"
proof -
  have "nat y < 10 ^ 6"
    using assms by simp
  then have "readField 6 (pad 6 (nat y) @ rest) = Some (int (nat y), rest)"
    by (rule readField_pad)
  then show ?thesis
    using assms by (simp add: readYear_def YearString_def)
qed

lemma readYear_YearString:
  assumes "- 999999 \<le> y" and "y \<le> 999999"
  shows "readYear (YearString y @ rest) = Some (y, rest)"
proof -
  consider "0 \<le> y \<and> y \<le> 9999" | "y < 0" | "9999 < y"
    by linarith
  then show ?thesis
    using assms by cases (simp_all add: readYear_4 readYear_neg readYear_pos)
qed

lemma readField_int:
  assumes "0 \<le> x" and "x < 10 ^ w"
  shows "readField w (pad w (nat x) @ rest) = Some (x, rest)"
proof -
  have "nat x < 10 ^ w"
    using assms by (simp add: nat_less_iff)
  then have "readField w (pad w (nat x) @ rest) = Some (int (nat x), rest)"
    by (rule readField_pad)
  then show ?thesis
    using assms(1) by simp
qed

lemma DateFromTime_le_31: "DateFromTime t \<le> 31"
  using MonthFromTime_cases [of t] DayWithinYear_range [of t] InLeapYear_cases [of t]
  unfolding InLeapYear_DaysInYear
  by (elim disjE conjE; simp add: DateFromTime_def)

lemma Date_parse_toISOString:
  assumes "- maxTime \<le> t" and "t \<le> maxTime"
  shows "Date_parse (toISOString t) = Some (TimeValue t)"
proof -
  have y: "readYear (YearString (YearFromTime t) @ rest) = Some (YearFromTime t, rest)" for rest
    using YearFromTime_range [OF assms] by (intro readYear_YearString) linarith+
  have mo: "readField 2 (pad 2 (nat (MonthFromTime t + 1)) @ rest) = Some (MonthFromTime t + 1, rest)"
    for rest
    using MonthFromTime_range [of t] by (intro readField_int) simp_all
  have d: "readField 2 (pad 2 (nat (DateFromTime t)) @ rest) = Some (DateFromTime t, rest)" for rest
    using DateFromTime_props(2) [of t] DateFromTime_le_31 [of t] by (intro readField_int) simp_all
  have h: "readField 2 (pad 2 (nat (HourFromTime t)) @ rest) = Some (HourFromTime t, rest)" for rest
    using time_fields_lower(1) [of t] time_fields_upper(1) [of t] by (intro readField_int) simp_all
  have mi: "readField 2 (pad 2 (nat (MinFromTime t)) @ rest) = Some (MinFromTime t, rest)" for rest
    using time_fields_lower(2) [of t] time_fields_upper(2) [of t] by (intro readField_int) simp_all
  have s: "readField 2 (pad 2 (nat (SecFromTime t)) @ rest) = Some (SecFromTime t, rest)" for rest
    using time_fields_lower(3) [of t] time_fields_upper(3) [of t] by (intro readField_int) simp_all
  have ms: "readField 3 (pad 3 (nat (msFromTime t)) @ rest) = Some (msFromTime t, rest)" for rest
    using time_fields_lower(4) [of t] time_fields_upper(4) [of t] by (intro readField_int) simp_all
  have v: "1 \<le> MonthFromTime t + 1" "MonthFromTime t + 1 \<le> 12"
    using MonthFromTime_range [of t] by linarith+
  have v': "HourFromTime t \<le> 23" "MinFromTime t \<le> 59" "SecFromTime t \<le> 59"
    using time_fields_upper [of t] by linarith+
  show ?thesis
    unfolding Date_parse_def toISOString_def
    by (simp add: y mo d h mi s ms v v' MonthFromTime_range DateFromTime_props(2,3)
        MakeDate_inverse assms)
qed

subsection \<open>Reading back a quoted string\<close>

lemma unat_add_small:
  fixes b :: nat
  assumes "a + b < 65536"
  shows "unat ((of_nat a :: 16 word) + of_nat b) = a + b"
proof -
  have "(of_nat a :: 16 word) + of_nat b = of_nat (a + b)"
    by simp
  then have "unat ((of_nat a :: 16 word) + of_nat b) = (a + b) mod 2 ^ 16"
    by (simp only: unat_of_nat len_of_numeral_defs) simp
  then show ?thesis
    using assms by simp
qed

lemma unat_hexDigit:
  "n < 16 \<Longrightarrow> unat (hexDigit n) = (if n < 10 then 48 + n else 87 + n)"
  using unat_add_small [of 48 n] unat_add_small [of 87 n]
  by (simp add: hexDigit_def)

lemma hexValue_hexDigit: "n < 16 \<Longrightarrow> hexValue (hexDigit n) = Some n"
  using unat_hexDigit [of n]
  by (auto simp add: hexValue_def word_le_nat_alt)

lemma nibbles:
  fixes n :: nat
  assumes "n < 65536"
  shows "n div 4096 mod 16 * 4096 + n div 256 mod 16 * 256 + n div 16 mod 16 * 16 + n mod 16 = n"
proof -
  have a: "n mod (16 * 16) = 16 * (n div 16 mod 16) + n mod 16"
    by (rule mod_mult2_eq)
  have b: "n mod (256 * 16) = 256 * (n div 256 mod 16) + n mod 256"
    by (rule mod_mult2_eq)
  have c: "n div 4096 mod 16 = n div 4096"
    using assms by (simp add: div_less_iff_less_mult)
  have d: "n = 4096 * (n div 4096) + n mod 4096"
    by simp
  show ?thesis
    using a b d unfolding c by simp
qed

lemma lexString_UnicodeEscape:
  "lexString (UnicodeEscape c @ rest) = map_option (apfst ((#) c)) (lexString rest)"
proof -
  define n where "n = unat c"
  have n: "n < 65536"
    using unsigned_less [of c, where ?'a = nat] by (simp add: n_def)
  have h: "hexValue (hexDigit (n div 4096 mod 16)) = Some (n div 4096 mod 16)"
    "hexValue (hexDigit (n div 256 mod 16)) = Some (n div 256 mod 16)"
    "hexValue (hexDigit (n div 16 mod 16)) = Some (n div 16 mod 16)"
    "hexValue (hexDigit (n mod 16)) = Some (n mod 16)"
    by (rule hexValue_hexDigit, simp)+
  have c: "(of_nat (n div 4096 mod 16 * 4096 + n div 256 mod 16 * 256 + n div 16 mod 16 * 16 +
      n mod 16) :: 16 word) = c"
    unfolding nibbles [OF n] by (simp add: n_def)
  show ?thesis
    unfolding UnicodeEscape_def Let_def n_def [symmetric]
    using c by (simp add: h)
qed

lemma lexString_literal:
  "\<not> c < 0x20 \<Longrightarrow> c \<noteq> 0x22 \<Longrightarrow> c \<noteq> 0x5C \<Longrightarrow>
   lexString (c # rest) = map_option (apfst ((#) c)) (lexString rest)"
  by simp

lemma lexString_escapeUnit:
  "lexString (escapeUnit c @ rest) = map_option (apfst ((#) c)) (lexString rest)"
  unfolding escapeUnit_def
  by (simp add: lexString_UnicodeEscape unescape_def del: lexString.simps)
     (simp add: unescape_def)

lemma surrogate_literal:
  assumes "isLeadingSurrogate c \<or> isTrailingSurrogate c"
  shows "\<not> c < 0x20" "c \<noteq> 0x22" "c \<noteq> 0x5C"
  using assms
  by (auto simp add: isLeadingSurrogate_def isTrailingSurrogate_def word_le_nat_alt
      word_less_nat_alt)

lemma lexString_quoteBody:
  "lexString (quoteBody s @ 0x22 # rest) = Some (s, rest)"
proof (induction s rule: quoteBody.induct)
  case 1
  then show ?case by simp
next
  case (2 c)
  then show ?case
    by (simp add: lexString_escapeUnit del: lexString.simps) simp
next
  case (3 c d cs)
  show ?case
  proof (cases "isLeadingSurrogate c \<and> isTrailingSurrogate d")
    case True
    then have "quoteBody (c # d # cs) = c # d # quoteBody cs"
      by simp
    then show ?thesis
      using 3(1) True surrogate_literal [of c] surrogate_literal [of d]
      by (simp add: lexString_literal del: lexString.simps quoteBody.simps)
  next
    case False
    then have "quoteBody (c # d # cs) = escapeUnit c @ quoteBody (d # cs)"
      by auto
    then show ?thesis
      using 3(2) False
      by (simp add: lexString_escapeUnit del: lexString.simps quoteBody.simps)
  qed
qed

subsection \<open>Reading back a number\<close>

lemma digits_isDigit: "list_all isDigit (digits n)"
proof (induction n rule: digits.induct)
  case (1 n)
  show ?case
  proof (cases "n < 10")
    case True
    then show ?thesis
      by (simp add: digits.simps [of n] isDigit_digit)
  next
    case False
    then show ?thesis
      using 1 by (simp add: digits.simps [of n] isDigit_digit)
  qed
qed

lemma digits_not_Nil: "digits n \<noteq> []"
  by (simp add: digits.simps [of n])

lemma natOfDigits_digits: "natOfDigits (digits n) = n"
proof (induction n rule: digits.induct)
  case (1 n)
  show ?case
  proof (cases "n < 10")
    case True
    then show ?thesis
      by (simp add: digits.simps [of n] natOfDigits_def digitValue_digit)
  next
    case False
    then show ?thesis
      using 1 by (simp add: digits.simps [of n] natOfDigits_snoc digitValue_digit)
  qed
qed

lemma digit_0: "digit d = 0x30 \<Longrightarrow> d < 10 \<Longrightarrow> d = 0"
  using unat_digit [of d] by (cases "d = 0") auto

lemma hd_digits: "0 < n \<Longrightarrow> hd (digits n) \<noteq> 0x30"
proof (induction n rule: digits.induct)
  case (1 n)
  show ?case
  proof (cases "n < 10")
    case True
    then show ?thesis
      using 1(2) digit_0 [of n] by (auto simp add: digits.simps [of n])
  next
    case False
    then have "0 < n div 10"
      by simp
    then show ?thesis
      using 1(1) False digits_not_Nil [of "n div 10"]
      by (simp add: digits.simps [of n])
  qed
qed

lemma digits_no_leading_zero: "\<not> (hd (digits n) = 0x30 \<and> 1 < length (digits n))"
proof (cases "n = 0")
  case True
  then show ?thesis
    by (simp add: digits.simps [of 0])
next
  case False
  then show ?thesis
    using hd_digits [of n] by simp
qed

lemma takeWhile_digits:
  "\<not> isDigit c \<Longrightarrow> takeWhile isDigit (digits n @ c # r) = digits n"
  "\<not> isDigit c \<Longrightarrow> dropWhile isDigit (digits n @ c # r) = c # r"
  using digits_isDigit [of n]
  by (simp_all add: takeWhile_append2 dropWhile_append2 list_all_iff)

lemma hd_digits_isDigit: "isDigit (hd (digits n))"
  using digits_isDigit [of n] digits_not_Nil [of n]
  by (cases "digits n") simp_all

lemma lexSign_digits: "lexSign (digits n @ r) = (False, digits n @ r)"
  using hd_digits_isDigit [of n] digits_not_Nil [of n] isDigit_not_sign [of "hd (digits n)"]
  by (cases "digits n") (simp_all add: lexSign_def)

lemma lexNumber_nat:
  assumes "\<not> isDigit c" and "c \<noteq> 0x2E" and "c \<noteq> 0x65" and "c \<noteq> 0x45"
  shows "lexNumber (digits n @ c # r) = Some ((int n, 0), c # r)"
  using assms digits_no_leading_zero [of n]
  by (auto simp add: lexNumber_def Let_def lexSign_digits takeWhile_digits digits_not_Nil
      lexFraction_def lexExponent_def natOfDigits_digits)

lemma lexNumber_neg:
  assumes "\<not> isDigit c" and "c \<noteq> 0x2E" and "c \<noteq> 0x65" and "c \<noteq> 0x45"
  shows "lexNumber (0x2D # digits n @ c # r) = Some ((- int n, 0), c # r)"
  using assms digits_no_leading_zero [of n]
  by (auto simp add: lexNumber_def Let_def lexSign_def takeWhile_digits digits_not_Nil
      lexFraction_def lexExponent_def natOfDigits_digits)

lemma lexNumber_NumberToString:
  assumes "\<not> isDigit c" and "c \<noteq> 0x2E" and "c \<noteq> 0x65" and "c \<noteq> 0x45"
  shows "lexNumber (NumberToString i @ c # r) = Some ((i, 0), c # r)"
  using lexNumber_nat [OF assms, of "nat i" r] lexNumber_neg [OF assms, of "nat (- i)" r]
  by (simp add: NumberToString_def)

subsection \<open>Parsing the serialised collection\<close>

lemma lex_punct:
  "lex (0x5B # cs) = map_option ((#) TLBracket) (lex cs)"
  "lex (0x5D # cs) = map_option ((#) TRBracket) (lex cs)"
  "lex (0x7B # cs) = map_option ((#) TLBrace) (lex cs)"
  "lex (0x7D # cs) = map_option ((#) TRBrace) (lex cs)"
  "lex (0x2C # cs) = map_option ((#) TComma) (lex cs)"
  "lex (0x3A # cs) = map_option ((#) TColon) (lex cs)"
  by simp_all

lemma lex_QuoteJSONString:
  "lex (QuoteJSONString s @ rest) = map_option ((#) (TString s)) (lex rest)"
  by (simp add: QuoteJSONString_def lexString_quoteBody del: lexString.simps)

lemma lex_literals:
  "lex (js ''true'' @ rest) = map_option ((#) TTrue) (lex rest)"
  "lex (js ''false'' @ rest) = map_option ((#) TFalse) (lex rest)"
  "lex (js ''null'' @ rest) = map_option ((#) TNull) (lex rest)"
  by (simp_all add: js_def isDigit_def)

lemma isDigit_not_punct:
  assumes "isDigit c"
  shows "c \<noteq> 0x20" "c \<noteq> 0x09" "c \<noteq> 0x0A" "c \<noteq> 0x0D" "c \<noteq> 0x5B" "c \<noteq> 0x5D"
    "c \<noteq> 0x7B" "c \<noteq> 0x7D" "c \<noteq> 0x2C" "c \<noteq> 0x3A" "c \<noteq> 0x22"
  using assms by (auto simp add: isDigit_def)

lemma lex_number_start:
  assumes "c = 0x2D \<or> isDigit c"
  shows "lex (c # cs) =
     (case lexNumber (c # cs) of
        None \<Rightarrow> None
      | Some ((m, e), rest) \<Rightarrow> map_option ((#) (TNumber m e)) (lex rest))"
  using assms isDigit_not_punct [of c] by auto

lemma NumberToString_start:
  "\<exists>c cs. NumberToString i = c # cs \<and> (c = 0x2D \<or> isDigit c)"
proof (cases "i < 0")
  case True
  then show ?thesis
    by (simp add: NumberToString_def)
next
  case False
  then show ?thesis
    using hd_digits_isDigit [of "nat i"] digits_not_Nil [of "nat i"]
    by (cases "digits (nat i)") (simp_all add: NumberToString_def)
qed

lemma lex_NumberToString:
  "lex (NumberToString i @ 0x2C # rest) = map_option ((#) (TNumber i 0)) (lex (0x2C # rest))"
proof -
  obtain c cs where n: "NumberToString i = c # cs" and c: "c = 0x2D \<or> isDigit c"
    using NumberToString_start [of i] by blast
  have "lexNumber (NumberToString i @ 0x2C # rest) = Some ((i, 0), 0x2C # rest)"
    by (rule lexNumber_NumberToString) (simp_all add: isDigit_def)
  then have "lexNumber (c # cs @ 0x2C # rest) = Some ((i, 0), 0x2C # rest)"
    by (simp add: n)
  then show ?thesis
    using lex_number_start [OF c, of "cs @ 0x2C # rest"]
    by (simp add: n del: lex.simps)
qed

lemma lex_Date_toJSON:
  "lex (Date_toJSON d @ rest) =
     map_option ((#) (case d of InvalidDate \<Rightarrow> TNull | TimeValue v \<Rightarrow> TString (toISOString v)))
       (lex rest)"
  by (cases d) (simp_all add: Date_toJSON_def lex_literals lex_QuoteJSONString del: lex.simps)

lemma lex_completed:
  "lex ((if b then js ''true'' else js ''false'') @ rest) =
     map_option ((#) (if b then TTrue else TFalse)) (lex rest)"
  by (simp add: lex_literals del: lex.simps)

lemma lex_SerializeTask:
  "lex (SerializeTask t @ rest) = map_option ((@) (tokensOfTask t)) (lex rest)"
proof -
  have "lex (SerializeTask t @ rest) =
      map_option ((#) TLBrace) (map_option ((#) (TString (js ''id''))) (map_option ((#) TColon)
      (map_option ((#) (TNumber (id' t) 0)) (map_option ((#) TComma)
      (map_option ((#) (TString (js ''text''))) (map_option ((#) TColon)
      (map_option ((#) (TString (text' t))) (map_option ((#) TComma)
      (map_option ((#) (TString (js ''completed''))) (map_option ((#) TColon)
      (map_option ((#) (if completed t then TTrue else TFalse)) (map_option ((#) TComma)
      (map_option ((#) (TString (js ''createdAt''))) (map_option ((#) TColon)
      (map_option ((#) (case createdAt t of InvalidDate \<Rightarrow> TNull
                        | TimeValue v \<Rightarrow> TString (toISOString v)))
      (map_option ((#) TRBrace) (lex rest)))))))))))))))))"
    unfolding SerializeTask_def append_assoc append_Cons append_Nil
    by (simp only: lex_punct lex_QuoteJSONString lex_NumberToString lex_completed
        lex_Date_toJSON)
  then show ?thesis
    by (cases "lex rest") (simp_all add: tokensOfTask_def)
qed

lemma lex_SerializeElements:
  "lex (SerializeElements ts @ rest) = map_option ((@) (tokensOfElements ts)) (lex rest)"
proof (induction ts rule: SerializeElements.induct)
  case 1
  then show ?case
    by (cases "lex rest") simp_all
next
  case (2 t)
  then show ?case
    by (simp add: lex_SerializeTask del: lex.simps)
next
  case (3 t u ts)
  have "lex (SerializeElements (t # u # ts) @ rest) =
      map_option ((@) (tokensOfTask t)) (map_option ((#) TComma)
        (lex (SerializeElements (u # ts) @ rest)))"
    by (simp add: lex_SerializeTask lex_punct del: lex.simps)
  then show ?case
    unfolding 3 by (cases "lex rest") simp_all
qed

lemma lex_JSON_stringify:
  "lex (JSON_stringify ts) = Some (TLBracket # tokensOfElements ts @ [TRBracket])"
  using lex_SerializeElements [of ts "[0x5D]"]
  by (simp add: JSON_stringify_def)

lemma run_append:
  "run s (xs @ ys) = (case run s xs of None \<Rightarrow> None | Some s' \<Rightarrow> run s' ys)"
  by (induction xs arbitrary: s) (simp_all split: option.splits)

lemma run_task:
  assumes "m = MValue \<or> m = MValueOrClose"
  shows "run (m, FArray acc # st) (tokensOfTask t) =
     Some (MAfter, FArray (jsonOfTask t # acc) # st)"
  using assms
  by (cases "createdAt t")
     (auto simp add: tokensOfTask_def jsonOfTask_def dateJSON_def)

lemma run_elements:
  assumes "ts \<noteq> []" and "m = MValue \<or> m = MValueOrClose"
  shows "run (m, FArray acc # st) (tokensOfElements ts) =
     Some (MAfter, FArray (rev (map jsonOfTask ts) @ acc) # st)"
  using assms
proof (induction ts arbitrary: m acc rule: tokensOfElements.induct)
  case 1
  then show ?case by simp
next
  case (2 t)
  then show ?case
    by (simp add: run_task)
next
  case (3 t u ts)
  have "run (m, FArray acc # st) (tokensOfElements (t # u # ts)) =
      run (MValue, FArray (jsonOfTask t # acc) # st) (tokensOfElements (u # ts))"
    using 3(3) by (simp add: run_append run_task)
  also have "\<dots> = Some (MAfter, FArray (rev (map jsonOfTask (u # ts)) @ jsonOfTask t # acc) # st)"
    by (rule 3(1)) simp_all
  finally show ?case
    by simp
qed

lemma parseTokens_tasks:
  "parseTokens (TLBracket # tokensOfElements ts @ [TRBracket]) = Some (JArray (map jsonOfTask ts))"
proof (cases "ts = []")
  case True
  then show ?thesis
    by (simp add: parseTokens_def)
next
  case False
  then show ?thesis
    using run_elements [of ts MValueOrClose "[]" "[]"]
    by (simp add: parseTokens_def run_append)
qed

lemma JSON_parse_stringify:
  "JSON_parse (JSON_stringify ts) = Inr (JArray (map jsonOfTask ts))"
  by (simp add: JSON_parse_def lex_JSON_stringify parseTokens_tasks)

subsection \<open>Converting the parsed elements\<close>

lemma keys_distinct:
  "js ''id'' \<noteq> js ''text''" "js ''id'' \<noteq> js ''completed''" "js ''id'' \<noteq> js ''createdAt''"
  "js ''text'' \<noteq> js ''completed''" "js ''text'' \<noteq> js ''createdAt''"
  "js ''completed'' \<noteq> js ''createdAt''"
  by (simp_all add: js_def)

lemma getProperty_jsonOfTask:
  "getProperty (js ''id'') [(js ''id'', a), (js ''text'', b), (js ''completed'', c), (js ''createdAt'', d)] = Some a"
  "getProperty (js ''text'') [(js ''id'', a), (js ''text'', b), (js ''completed'', c), (js ''createdAt'', d)] = Some b"
  "getProperty (js ''completed'') [(js ''id'', a), (js ''text'', b), (js ''completed'', c), (js ''createdAt'', d)] = Some c"
  "getProperty (js ''createdAt'') [(js ''id'', a), (js ''text'', b), (js ''completed'', c), (js ''createdAt'', d)] = Some d"
  using keys_distinct by (simp_all add: getProperty_def)

lemma TaskOfJSON_jsonOfTask:
  assumes "wellFormed t"
  shows "TaskOfJSON (jsonOfTask t) = Some t"
proof -
  obtain v where v: "createdAt t = TimeValue v" "- maxTime \<le> v" "v \<le> maxTime"
    using assms by (cases "createdAt t") (auto simp add: wellFormed_def)
  have d: "new_Date (Some (dateJSON (createdAt t))) = Some (createdAt t)"
    using Date_parse_toISOString [OF v(2,3)] by (simp add: new_Date_def dateJSON_def v(1))
  have i: "idOfJSON (Some (JNumber (id' t) 0)) = Some (id' t)"
    using assms by (simp add: idOfJSON_def integerValue_def wellFormed_def)
  show ?thesis
    by (simp add: TaskOfJSON_def jsonOfTask_def getProperty_jsonOfTask d i textOfJSON_def
        completedOfJSON_def)
qed

lemma those_TaskOfJSON:
  "list_all wellFormed ts \<Longrightarrow> those (map (TaskOfJSON \<circ> jsonOfTask) ts) = Some ts"
  by (induction ts) (simp_all add: TaskOfJSON_jsonOfTask)

lemma JNull_not_task: "JNull \<notin> set (map jsonOfTask ts)"
  by (auto simp add: jsonOfTask_def)

lemma JSON_stringify_not_Nil: "JSON_stringify ts \<noteq> []"
  by (simp add: JSON_stringify_def)

subsection \<open>Saving and then loading\<close>

text \<open>Two snapshots as \<^verbatim>\<open>saveTasks\<close> writes them, computed from the definitions.\<close>

lemma stringify_taskA_taskB:
  \<open>JSON_stringify [taskA, taskB] =
     js (''[{"id":1,"text":"A","completed":true,"createdAt":"1970-01-01T00:00:00.001Z"},'' @
         ''{"id":2,"text":"B","completed":false,"createdAt":"1970-01-01T00:00:00.002Z"}]'')\<close>
  by code_simp

text \<open>
  A task with an invalid date is saved with \<^verbatim>\<open>"createdAt":null\<close> and comes back with
  the epoch as its creation time: the round trip needs valid dates.
\<close>

lemma invalid_date_reloads_as_epoch:
  \<open>JSON_stringify [taskA\<lparr>createdAt := InvalidDate\<rparr>] =
     js ''[{"id":1,"text":"A","completed":true,"createdAt":null}]''
   \<and> loadTasks (blankApp (Some (js ''[{"id":1,"text":"A","completed":true,"createdAt":null}]''))) =
     Modelled ((blankApp (Some (js ''[{"id":1,"text":"A","completed":true,"createdAt":null}]'')))
       \<lparr>tasks := [taskA\<lparr>createdAt := TimeValue 0\<rparr>]\<rparr>)\<close>
  by code_simp

lemma wellFormed_taskA_taskB: "list_all wellFormed [taskA, taskB]"
  by (simp add: wellFormed_def taskA_def taskB_def maxSafeInteger_def maxTime_def)

text \<open>
  Claim C3. Let the collection of \<open>app\<close> be well-formed. Whatever state \<open>app'\<close> holds the
  snapshot that \<^verbatim>\<open>saveTasks\<close> wrote for \<open>app\<close>, \<^verbatim>\<open>loadTasks\<close> returns normally and
  sets its collection to the tasks of \<open>app\<close>: the same ids, texts, completed flags and
  creation times, in the same order, and nothing else of \<open>app'\<close> changes. In particular
  loading right after saving changes nothing, and a new \<^verbatim>\<open>TodoApp\<close> built over the
  snapshot starts with the tasks of \<open>app\<close>.
\<close>

theorem save_load_roundtrip:
  assumes "list_all wellFormed (tasks app)"
    and "storage app' = storage (saveTasks app)"
  shows "loadTasks app' = Modelled (app'\<lparr>tasks := tasks app\<rparr>)
    \<and> loadTasks (saveTasks app) = Modelled (saveTasks app)
    \<and> new_TodoApp (storage (saveTasks app)) =
        Modelled ((blankApp (storage (saveTasks app)))\<lparr>tasks := tasks app\<rparr>)"
proof -
  have s: "storage (saveTasks app) = Some (JSON_stringify (tasks app))"
    by (simp add: saveTasks_def)
  have l: "loadTasks a = Modelled (a\<lparr>tasks := tasks app\<rparr>)"
    if "storage a = Some (JSON_stringify (tasks app))" for a
    using assms(1) JNull_not_task [of "tasks app"] that
    by (simp add: loadTasks_def JSON_stringify_not_Nil JSON_parse_stringify
        those_TaskOfJSON del: set_map)
  have "loadTasks app' = Modelled (app'\<lparr>tasks := tasks app\<rparr>)"
    by (rule l) (simp add: assms(2) s)
  moreover have "loadTasks (saveTasks app) = Modelled ((saveTasks app)\<lparr>tasks := tasks app\<rparr>)"
    by (rule l) (rule s)
  then have "loadTasks (saveTasks app) = Modelled (saveTasks app)"
    by (simp add: saveTasks_def)
  moreover have "new_TodoApp (storage (saveTasks app)) =
      Modelled ((blankApp (storage (saveTasks app)))\<lparr>tasks := tasks app\<rparr>)"
    unfolding new_TodoApp_def init_def by (rule l) (simp add: blankApp_def s)
  ultimately show ?thesis
    by simp
qed

theorem save_load_roundtrip_witness:
  \<open>list_all wellFormed (tasks ((blankApp None)\<lparr>tasks := [taskA, taskB]\<rparr>))
   \<and> storage (saveTasks ((blankApp None)\<lparr>tasks := [taskA, taskB]\<rparr>)) =
       Some (js (''[{"id":1,"text":"A","completed":true,"createdAt":"1970-01-01T00:00:00.001Z"},'' @
         ''{"id":2,"text":"B","completed":false,"createdAt":"1970-01-01T00:00:00.002Z"}]''))
   \<and> loadTasks (blankApp (Some
         (js (''[{"id":1,"text":"A","completed":true,"createdAt":"1970-01-01T00:00:00.001Z"},'' @
         ''{"id":2,"text":"B","completed":false,"createdAt":"1970-01-01T00:00:00.002Z"}]'')))) =
       Modelled ((blankApp (Some
         (js (''[{"id":1,"text":"A","completed":true,"createdAt":"1970-01-01T00:00:00.001Z"},'' @
         ''{"id":2,"text":"B","completed":false,"createdAt":"1970-01-01T00:00:00.002Z"}]''))))
         \<lparr>tasks := [taskA, taskB]\<rparr>)\<close>
proof -
  let ?app = "(blankApp None)\<lparr>tasks := [taskA, taskB]\<rparr>"
  have w: "list_all wellFormed (tasks ?app)"
    using wellFormed_taskA_taskB by simp
  have s: "storage (saveTasks ?app) = Some (JSON_stringify [taskA, taskB])"
    by (simp add: saveTasks_def)
  have s': "storage (blankApp (storage (saveTasks ?app))) = storage (saveTasks ?app)"
    by (simp add: blankApp_def)
  show ?thesis
    using save_load_roundtrip [OF w s'] w
    unfolding s stringify_taskA_taskB by simp
qed

subsection \<open>Loading what cannot be parsed\<close>






text \<open>
  The strings on which \<^verbatim>\<open>loadTasks\<close> logs an error are malformed in the sense of the
  specification: a text that is not JSON, a value that is not an array, an array with a
  \<^verbatim>\<open>null\<close> element.
\<close>

lemma logged_is_malformed:
  "JSON_parse stored = Inl e \<Longrightarrow> malformed stored"
  "JSON_parse stored = Inr v \<Longrightarrow> \<forall>xs. v \<noteq> JArray xs \<Longrightarrow> malformed stored"
  "JSON_parse stored = Inr (JArray elems) \<Longrightarrow> JNull \<in> set elems \<Longrightarrow> malformed stored"
proof -
  show "JSON_parse stored = Inl e \<Longrightarrow> malformed stored"
    by (simp add: malformed_def)
  show "JSON_parse stored = Inr v \<Longrightarrow> \<forall>xs. v \<noteq> JArray xs \<Longrightarrow> malformed stored"
    by (cases v) (auto simp add: malformed_def specSnapshot_def)
  have "\<not> specRecord JNull"
    by (simp add: specRecord_def)
  then show "JSON_parse stored = Inr (JArray elems) \<Longrightarrow> JNull \<in> set elems \<Longrightarrow> malformed stored"
    by (auto simp add: malformed_def specSnapshot_def list_all_iff)
qed




end
